theory Spec2Isabelle
  imports Complex_Main
begin

section \<open>Spreadsheet values\<close>

text \<open>
  The script \<^verbatim>\<open>create_ibond_tracker.py\<close> writes formula strings into the cells of a
  workbook; what the workbook computes is the value of those formulas. The formulas are
  embedded here as functions over cell values, one definition per formula string, with
  each spreadsheet function translated to a function of the same name (prefix \<open>x\<close>).

  A cell holds nothing, a number, a text, a truth value or an error code. Numbers are
  modelled as reals (the arithmetic of the formulas, without binary rounding); dates are
  numbers, the serial day count of the spreadsheet. Text is taken to be text that does
  not read as a number, so that arithmetic on it is the error \<open>#VALUE!\<close>.
\<close>

datatype xerr = E_NA | E_VALUE | E_NUM | E_DIV0 | E_REF | E_CALC

datatype cell = Blank | Num real | Str string | Bool bool | Err xerr

fun to_num :: "cell \<Rightarrow> xerr + real" where
  "to_num Blank = Inr 0"
| "to_num (Num x) = Inr x"
| "to_num (Str s) = Inl E_VALUE"
| "to_num (Bool b) = Inr (if b then 1 else 0)"
| "to_num (Err e) = Inl e"

fun to_bool :: "cell \<Rightarrow> xerr + bool" where
  "to_bool Blank = Inr False"
| "to_bool (Num x) = Inr (x \<noteq> 0)"
| "to_bool (Str s) = Inl E_VALUE"
| "to_bool (Bool b) = Inr b"
| "to_bool (Err e) = Inl e"

definition num1 :: "(real \<Rightarrow> cell) \<Rightarrow> cell \<Rightarrow> cell" where
  "num1 f a = (case to_num a of Inl e \<Rightarrow> Err e | Inr x \<Rightarrow> f x)"

definition num2 :: "(real \<Rightarrow> real \<Rightarrow> cell) \<Rightarrow> cell \<Rightarrow> cell \<Rightarrow> cell" where
  "num2 f a b =
     (case to_num a of Inl e \<Rightarrow> Err e
      | Inr x \<Rightarrow> (case to_num b of Inl e \<Rightarrow> Err e | Inr y \<Rightarrow> f x y))"

definition xadd :: "cell \<Rightarrow> cell \<Rightarrow> cell" where
  "xadd = num2 (\<lambda>x y. Num (x + y))"

definition xmul :: "cell \<Rightarrow> cell \<Rightarrow> cell" where
  "xmul = num2 (\<lambda>x y. Num (x * y))"

definition xdiv :: "cell \<Rightarrow> cell \<Rightarrow> cell" where
  "xdiv = num2 (\<lambda>x y. if y = 0 then Err E_DIV0 else Num (x / y))"

text \<open>Text comparison ignores letter case.\<close>

definition upper_char :: "char \<Rightarrow> nat" where
  "upper_char c = (let n = (of_char c :: nat) in if 97 \<le> n \<and> n \<le> 122 then n - 32 else n)"

fun xeq :: "cell \<Rightarrow> cell \<Rightarrow> cell" where
  "xeq (Err e) b = Err e"
| "xeq a (Err e) = Err e"
| "xeq Blank Blank = Bool True"
| "xeq Blank (Num y) = Bool (y = 0)"
| "xeq Blank (Str t) = Bool (t = [])"
| "xeq Blank (Bool b) = Bool (\<not> b)"
| "xeq (Num x) Blank = Bool (x = 0)"
| "xeq (Str s) Blank = Bool (s = [])"
| "xeq (Bool a) Blank = Bool (\<not> a)"
| "xeq (Num x) (Num y) = Bool (x = y)"
| "xeq (Str s) (Str t) = Bool (map upper_char s = map upper_char t)"
| "xeq (Bool a) (Bool b) = Bool (a = b)"
| "xeq a b = Bool False"

fun xOR :: "cell list \<Rightarrow> cell" where
  "xOR [] = Bool False"
| "xOR (c # cs) =
     (case to_bool c of Inl e \<Rightarrow> Err e
      | Inr b \<Rightarrow> (case xOR cs of Bool b' \<Rightarrow> Bool (b \<or> b') | r \<Rightarrow> r))"

definition xIF :: "cell \<Rightarrow> cell \<Rightarrow> cell \<Rightarrow> cell" where
  "xIF c a b = (case to_bool c of Inl e \<Rightarrow> Err e | Inr t \<Rightarrow> if t then a else b)"

text \<open>
  \<open>IF\<close> whose branches are arrays (a single value is an array of one element); an error
  in the condition is the whole result.
\<close>

definition xIFa :: "cell \<Rightarrow> cell list \<Rightarrow> cell list \<Rightarrow> cell list" where
  "xIFa c a b = (case to_bool c of Inl e \<Rightarrow> [Err e] | Inr t \<Rightarrow> if t then a else b)"

fun xIFERROR :: "cell \<Rightarrow> cell \<Rightarrow> cell" where
  "xIFERROR (Err e) d = d"
| "xIFERROR v d = v"

text \<open>
  A formula whose result is a reference to an empty cell shows the number 0.
\<close>

fun deref :: "cell \<Rightarrow> cell" where
  "deref Blank = Num 0"
| "deref v = v"

definition xINT :: "cell \<Rightarrow> cell" where
  "xINT = num1 (\<lambda>x. Num (of_int \<lfloor>x\<rfloor>))"

definition xMOD :: "cell \<Rightarrow> cell \<Rightarrow> cell" where
  "xMOD = num2 (\<lambda>x y. if y = 0 then Err E_DIV0 else Num (x - y * of_int \<lfloor>x / y\<rfloor>))"

definition xLN :: "cell \<Rightarrow> cell" where
  "xLN = num1 (\<lambda>x. if x \<le> 0 then Err E_NUM else Num (ln x))"

definition xEXP :: "cell \<Rightarrow> cell" where
  "xEXP = num1 (\<lambda>x. Num (exp x))"

text \<open>
  \<open>SUM\<close> over an array: the first error is the result; elements that are not numbers
  are skipped.
\<close>

fun xSUM :: "cell list \<Rightarrow> cell" where
  "xSUM [] = Num 0"
| "xSUM (Err e # cs) = Err e"
| "xSUM (Num x # cs) = (case xSUM cs of Num s \<Rightarrow> Num (x + s) | r \<Rightarrow> r)"
| "xSUM (c # cs) = xSUM cs"

text \<open>
  \<open>POWER\<close>: a positive base takes any exponent; zero to the power zero is \<open>#NUM!\<close>, zero
  to a negative power \<open>#DIV/0!\<close>; a negative base takes whole exponents, any other
  exponent of a negative base is modelled as \<open>#NUM!\<close>.
\<close>

definition xPOWER :: "cell \<Rightarrow> cell \<Rightarrow> cell" where
  "xPOWER = num2 (\<lambda>b e.
     if 0 < b then Num (b powr e)
     else if b = 0 then (if e = 0 then Err E_NUM else if e < 0 then Err E_DIV0 else Num 0)
     else if e = of_int \<lfloor>e\<rfloor> then Num (b powi \<lfloor>e\<rfloor>)
     else Err E_NUM)"

text \<open>\<open>ROUND\<close> to \<open>d\<close> decimals, halves away from zero.\<close>

definition round_half_away :: "real \<Rightarrow> nat \<Rightarrow> real" where
  "round_half_away x d = sgn x * of_int \<lfloor>\<bar>x\<bar> * 10 ^ d + 1 / 2\<rfloor> / 10 ^ d"

definition xROUND :: "cell \<Rightarrow> nat \<Rightarrow> cell" where
  "xROUND c d = num1 (\<lambda>x. Num (round_half_away x d)) c"

text \<open>
  \<open>SEQUENCE(rows, 1, start, 1)\<close>: a column of \<open>rows\<close> numbers from \<open>start\<close> in steps of
  one; the row count is truncated to a whole number, and a count below one is an error.
\<close>

definition xSEQUENCE :: "cell \<Rightarrow> cell \<Rightarrow> cell list" where
  "xSEQUENCE rows start =
     (case to_num rows of Inl e \<Rightarrow> [Err e]
      | Inr n \<Rightarrow> (case to_num start of Inl e \<Rightarrow> [Err e]
         | Inr s \<Rightarrow>
             if n < 0 then [Err E_VALUE]
             else if n < 1 then [Err E_CALC]
             else map (\<lambda>i. Num (s + of_nat i)) [0..<nat \<lfloor>n\<rfloor>]))"

text \<open>
  \<open>INDEX\<close> into a whole sheet column (\<open>Rates!B:B\<close>): the column is the list of its
  filled cells from row 1, every row below is empty. Row numbers below one do not occur
  in the formulas (a match position is at least one) and are modelled as \<open>#VALUE!\<close>.
\<close>

definition xINDEX_col :: "cell list \<Rightarrow> cell \<Rightarrow> cell" where
  "xINDEX_col col = num1 (\<lambda>x.
     if x < 1 then Err E_VALUE
     else if nat \<lfloor>x\<rfloor> \<le> length col then col ! (nat \<lfloor>x\<rfloor> - 1) else Blank)"

text \<open>\<open>INDEX\<close> into a computed array: a position past its end is \<open>#REF!\<close>.\<close>

definition xINDEX_arr :: "cell list \<Rightarrow> cell \<Rightarrow> cell" where
  "xINDEX_arr arr = num1 (\<lambda>x.
     if x < 1 then Err E_VALUE
     else if nat \<lfloor>x\<rfloor> \<le> length arr then arr ! (nat \<lfloor>x\<rfloor> - 1) else Err E_REF)"

text \<open>
  \<open>MATCH(key, column, 1)\<close> on a column sorted ascending: the position (from 1) of the
  last number not above the key, \<open>#N/A\<close> when there is none. Cells that are not numbers
  (the header, empty rows) are passed over. A key that is not a number finds no number
  to match.
\<close>

fun match_scan :: "real \<Rightarrow> cell list \<Rightarrow> nat \<Rightarrow> nat option" where
  "match_scan k [] pos = None"
| "match_scan k (c # cs) pos =
     (case match_scan k cs (pos + 1) of
        Some p \<Rightarrow> Some p
      | None \<Rightarrow> (case c of Num v \<Rightarrow> if v \<le> k then Some pos else None | _ \<Rightarrow> None))"

fun xMATCH1 :: "cell \<Rightarrow> cell list \<Rightarrow> cell" where
  "xMATCH1 (Num k) col = (case match_scan k col 1 of None \<Rightarrow> Err E_NA | Some p \<Rightarrow> Num (of_nat p))"
| "xMATCH1 (Err e) col = Err e"
| "xMATCH1 key col = Err E_NA"

text \<open>
  \<open>XLOOKUP(key, keys, values)\<close>: exact match, first hit from the top; an empty key
  matches an empty cell.
\<close>

fun same_key :: "cell \<Rightarrow> cell \<Rightarrow> bool" where
  "same_key Blank Blank = True"
| "same_key (Num x) (Num y) = (x = y)"
| "same_key (Str s) (Str t) = (map upper_char s = map upper_char t)"
| "same_key (Bool a) (Bool b) = (a = b)"
| "same_key a b = False"

fun lookup_first :: "cell \<Rightarrow> cell list \<Rightarrow> cell list \<Rightarrow> cell" where
  "lookup_first key (k # ks) (v # vs) = (if same_key key k then v else lookup_first key ks vs)"
| "lookup_first key ks vs = Err E_NA"

fun xXLOOKUP :: "cell \<Rightarrow> cell list \<Rightarrow> cell list \<Rightarrow> cell" where
  "xXLOOKUP (Err e) ks vs = Err e"
| "xXLOOKUP key ks vs = lookup_first key ks vs"

text \<open>\<open>SCAN(init, array, f)\<close>: the running results of folding \<open>f\<close> over the array.\<close>

fun xSCAN :: "cell \<Rightarrow> cell list \<Rightarrow> (cell \<Rightarrow> cell \<Rightarrow> cell) \<Rightarrow> cell list" where
  "xSCAN a [] f = []"
| "xSCAN a (x # xs) f = f a x # xSCAN (f a x) xs f"


section \<open>Calendar of the date serial numbers\<close>

text \<open>
  A date is its serial day number: 1 is 1 January 1900, 61 is 1 March 1900, and the
  sheet counts a 29 February 1900 (serial 60). Serial 0 reads as day 0 of January 1900.
  From serial 61 on the calendar is the Gregorian one, 25569 being 1 January 1970.
\<close>

definition civil_from_days :: "int \<Rightarrow> int \<times> int \<times> int" where
  "civil_from_days z0 =
     (let z = z0 + 719468;
          era = z div 146097;
          doe = z - era * 146097;
          yoe = (doe - doe div 1460 + doe div 36524 - doe div 146096) div 365;
          doy = doe - (365 * yoe + yoe div 4 - yoe div 100);
          mp = (5 * doy + 2) div 153;
          d = doy - (153 * mp + 2) div 5 + 1;
          m = (if mp < 10 then mp + 3 else mp - 9);
          y = yoe + era * 400
      in (if m \<le> 2 then y + 1 else y, m, d))"

definition days_from_civil :: "int \<Rightarrow> int \<Rightarrow> int \<Rightarrow> int" where
  "days_from_civil y0 m d =
     (let y = (if m \<le> 2 then y0 - 1 else y0);
          era = y div 400;
          yoe = y - era * 400;
          doy = (153 * (if m > 2 then m - 3 else m + 9) + 2) div 5 + d - 1;
          doe = yoe * 365 + yoe div 4 - yoe div 100 + doy
      in era * 146097 + doe - 719468)"

definition civil_of_serial :: "int \<Rightarrow> int \<times> int \<times> int" where
  "civil_of_serial n =
     (if n \<le> 31 then (1900, 1, n)
      else if n \<le> 60 then (1900, 2, n - 31)
      else civil_from_days (n - 25569))"

definition serial_of_civil :: "int \<Rightarrow> int \<Rightarrow> int \<Rightarrow> int" where
  "serial_of_civil y m d =
     (if y = 1900 \<and> m \<le> 2 then (if m = 1 then d else 31 + d)
      else days_from_civil y m d + 25569)"

definition days_in_month :: "int \<Rightarrow> int \<Rightarrow> int" where
  "days_in_month y m =
     (if m = 2 then
        (if y = 1900 \<or> (y mod 4 = 0 \<and> (y mod 100 \<noteq> 0 \<or> y mod 400 = 0)) then 29 else 28)
      else if m = 4 \<or> m = 6 \<or> m = 9 \<or> m = 11 then 30 else 31)"

definition max_serial :: int where
  "max_serial = 2958465"

text \<open>
  \<open>EDATE(start, months)\<close>: the same day of the month \<open>months\<close> months later, or the last
  day of that month when it is shorter. Both arguments are cut to whole numbers.
\<close>

definition truncate_real :: "real \<Rightarrow> int" where
  "truncate_real x = (if 0 \<le> x then \<lfloor>x\<rfloor> else - \<lfloor>- x\<rfloor>)"

definition xEDATE :: "cell \<Rightarrow> cell \<Rightarrow> cell" where
  "xEDATE = num2 (\<lambda>s k.
     let n = \<lfloor>s\<rfloor> in
     if n < 0 \<or> max_serial < n then Err E_NUM
     else (case civil_of_serial n of (y, m, d) \<Rightarrow>
       let t = y * 12 + (m - 1) + truncate_real k;
           y' = t div 12;
           m' = t mod 12 + 1;
           r = serial_of_civil y' m' (min d (days_in_month y' m'))
       in if y' < 1900 \<or> r < 0 \<or> max_serial < r then Err E_NUM else Num (of_int r)))"

text \<open>
  \<open>DATEDIF(start, end, "m")\<close>: the whole months from \<open>start\<close> to \<open>end\<close>; \<open>#NUM!\<close> when
  \<open>start\<close> is after \<open>end\<close>.
\<close>

definition xDATEDIF_m :: "cell \<Rightarrow> cell \<Rightarrow> cell" where
  "xDATEDIF_m = num2 (\<lambda>s e.
     let a = \<lfloor>s\<rfloor>; b = \<lfloor>e\<rfloor> in
     if a < 0 \<or> b < 0 \<or> b < a then Err E_NUM
     else (case civil_of_serial a of (y1, m1, d1) \<Rightarrow>
           case civil_of_serial b of (y2, m2, d2) \<Rightarrow>
             Num (of_int ((y2 * 12 + m2) - (y1 * 12 + m1) - (if d2 < d1 then 1 else 0)))))"

section \<open>The workbook\<close>

text \<open>
  The user's entries: the rows of the Rates sheet from row 2 down (effective date,
  variable rate), the rows of the Inventory sheet from row 2 down, the selected bond id
  in \<open>BondSchedule!B1\<close>, and the value of \<open>TODAY()\<close>.
\<close>

record bond_row =
  BondID :: cell
  Owner :: cell
  IssueDate :: cell
  PurchaseAmount :: cell
  FixedRate :: cell
  MonthsToProject :: cell

type_synonym rates = "(cell \<times> cell) list"

text \<open>\<open>build_rates\<close>: row 1 holds the headers, so the whole columns start with them.\<close>

definition RatesA :: "rates \<Rightarrow> cell list" where
  "RatesA rs = Str ''EffDate'' # map fst rs"

definition RatesB :: "rates \<Rightarrow> cell list" where
  "RatesB rs = Str ''VariableRate'' # map snd rs"

text \<open>
  A column of the Inventory data range, rows 2 to 101: one hundred cells, empty where the
  user entered no row.
\<close>

definition inv_range :: "(bond_row \<Rightarrow> cell) \<Rightarrow> bond_row list \<Rightarrow> cell list" where
  "inv_range f bonds = map f (take 100 bonds) @ replicate (100 - length bonds) Blank"

section \<open>Inventory formulas (\<open>build_inventory\<close>)\<close>

text \<open>
  The growth factor of one period, \<open>1 + ((fixed + var + fixed*var)/2)\<close>, as it is written
  in the CurrentValue formula and in \<open>halfFacVec\<close> of the schedule.
\<close>

definition halfFac :: "cell \<Rightarrow> cell \<Rightarrow> cell" where
  "halfFac fixed var = xadd (Num 1) (xdiv (xadd (xadd fixed var) (xmul fixed var)) (Num 2))"

text \<open>Column G: \<open>=IFERROR(DATEDIF(C, TODAY(), "m"), "")\<close>.\<close>

definition MonthsHeld :: "cell \<Rightarrow> cell \<Rightarrow> cell" where
  "MonthsHeld today C = xIFERROR (xDATEDIF_m C today) (Str [])"

text \<open>
  Column H. The bindings of its \<open>LET\<close> are given one definition each, under the names
  the formula gives them (\<open>princ\<close> for \<open>principal\<close>), as functions of the bindings they
  use; \<open>startIdx\<close>, \<open>fullPeriods\<close> and \<open>monthsInPeriod\<close> are repeated where they are
  used.
\<close>

definition months :: "cell \<Rightarrow> cell \<Rightarrow> cell" where
  "months today issue = xIFERROR (xDATEDIF_m issue today) (Num 0)"

definition varVec :: "rates \<Rightarrow> cell \<Rightarrow> cell \<Rightarrow> cell list" where
  "varVec rs issue mths =
     (let startIdx = xMATCH1 issue (RatesA rs);
          fullPeriods = xINT (xdiv mths (Num 6))
      in xIFa (xeq fullPeriods (Num 0)) [Str []]
           (map (xINDEX_col (RatesB rs)) (xSEQUENCE fullPeriods startIdx)))"

definition fullProd :: "rates \<Rightarrow> cell \<Rightarrow> cell \<Rightarrow> cell \<Rightarrow> cell" where
  "fullProd rs issue fixed mths =
     (let fullPeriods = xINT (xdiv mths (Num 6))
      in xIF (xeq fullPeriods (Num 0)) (Num 1)
           (xEXP (xSUM (map (\<lambda>v. xLN (halfFac fixed v)) (varVec rs issue mths)))))"

definition lastVar :: "rates \<Rightarrow> cell \<Rightarrow> cell \<Rightarrow> cell" where
  "lastVar rs issue mths =
     (let startIdx = xMATCH1 issue (RatesA rs);
          fullPeriods = xINT (xdiv mths (Num 6))
      in xINDEX_col (RatesB rs) (xadd startIdx fullPeriods))"

definition partial :: "rates \<Rightarrow> cell \<Rightarrow> cell \<Rightarrow> cell \<Rightarrow> cell" where
  "partial rs issue fixed mths =
     (let monthsInPeriod = xMOD mths (Num 6)
      in xPOWER (halfFac fixed (lastVar rs issue mths)) (xdiv monthsInPeriod (Num 6)))"

text \<open>The last line of the \<open>LET\<close>: the value at a given count of months held.\<close>

definition value_at :: "rates \<Rightarrow> cell \<Rightarrow> cell \<Rightarrow> cell \<Rightarrow> cell \<Rightarrow> cell" where
  "value_at rs issue princ fixed mths =
     xIFERROR
       (xROUND (xmul (xmul princ (fullProd rs issue fixed mths)) (partial rs issue fixed mths)) 2)
       (Str [])"

definition CurrentValue :: "rates \<Rightarrow> cell \<Rightarrow> cell \<Rightarrow> cell \<Rightarrow> cell \<Rightarrow> cell" where
  "CurrentValue rs today C D E =
     xIF (xOR [xeq C (Str []), xeq D (Str []), xeq E (Str [])]) (Str [])
       (let issue = C; princ = D; fixed = E
        in value_at rs issue princ fixed (months today issue))"

text \<open>
  The loop over the rows 2 to 101 writes both formulas into each row, referring to the
  cells C, D and E of that row: the two computed cells of a row, MonthsHeld and
  CurrentValue.
\<close>

definition computed_cells :: "rates \<Rightarrow> cell \<Rightarrow> bond_row \<Rightarrow> cell \<times> cell" where
  "computed_cells rs today row =
     (MonthsHeld today (IssueDate row),
      CurrentValue rs today (IssueDate row) (PurchaseAmount row) (FixedRate row))"

section \<open>BondSchedule formulas (\<open>build_bond_schedule\<close>)\<close>

text \<open>The helper lookups B3 to B6 of the selected bond id \<open>B1\<close>.\<close>

definition B3 :: "bond_row list \<Rightarrow> cell \<Rightarrow> cell" where
  "B3 bonds B1 = deref (xIFERROR (xXLOOKUP B1 (inv_range BondID bonds) (inv_range IssueDate bonds)) (Str []))"

definition B4 :: "bond_row list \<Rightarrow> cell \<Rightarrow> cell" where
  "B4 bonds B1 = deref (xIFERROR (xXLOOKUP B1 (inv_range BondID bonds) (inv_range PurchaseAmount bonds)) (Str []))"

definition B5 :: "bond_row list \<Rightarrow> cell \<Rightarrow> cell" where
  "B5 bonds B1 = deref (xIFERROR (xXLOOKUP B1 (inv_range BondID bonds) (inv_range FixedRate bonds)) (Str []))"

definition B6 :: "bond_row list \<Rightarrow> cell \<Rightarrow> cell" where
  "B6 bonds B1 = deref (xIFERROR (xXLOOKUP B1 (inv_range BondID bonds) (inv_range MonthsToProject bonds)) (Num 0))"

text \<open>
  The five spilled columns A9 to E9. Each is an array; the single text \<open>""\<close> is the array
  of that one value. Arithmetic on an array is written as a \<open>map\<close> over it. The
  arguments \<open>b3\<close> to \<open>b6\<close> are the values of the cells B3 to B6.
\<close>

definition Month :: "cell \<Rightarrow> cell \<Rightarrow> cell list" where
  "Month b3 b6 =
     xIFa (xeq b3 (Str [])) [Str []]
       (map (xEDATE b3) (xSEQUENCE (xadd b6 (Num 1)) (Num 0)))"

definition MonthIndex :: "cell \<Rightarrow> cell \<Rightarrow> cell list" where
  "MonthIndex b3 b6 =
     xIFa (xeq b3 (Str [])) [Str []] (xSEQUENCE (xadd b6 (Num 1)) (Num 0))"

definition VariableRate :: "rates \<Rightarrow> cell \<Rightarrow> cell \<Rightarrow> cell list" where
  "VariableRate rs b3 b6 =
     xIFa (xeq b3 (Str [])) [Str []]
       (let m = MonthIndex b3 b6; issue = b3;
            startIdx = xMATCH1 issue (RatesA rs)
        in map (\<lambda>mi. let periodIdx = xINT (xdiv mi (Num 6));
                         annIdx = xadd startIdx periodIdx
                     in deref (xINDEX_col (RatesB rs) annIdx)) m)"

definition CompositeRate :: "rates \<Rightarrow> cell \<Rightarrow> cell \<Rightarrow> cell \<Rightarrow> cell list" where
  "CompositeRate rs b3 b5 b6 =
     xIFa (xeq b3 (Str [])) [Str []]
       (let fixed = b5; var = VariableRate rs b3 b6
        in map (\<lambda>v. xadd (xadd fixed v) (xmul fixed v)) var)"

text \<open>
  Column E. The helper vectors of its \<open>LET\<close> are shared by all rows; they are given
  one definition each, under their names in the formula.
\<close>

definition halfFacVec :: "rates \<Rightarrow> cell \<Rightarrow> cell \<Rightarrow> cell \<Rightarrow> cell list" where
  "halfFacVec rs issue fixed maxM =
     (let startIdx = xMATCH1 issue (RatesA rs);
          numPeriods = xadd (xINT (xdiv maxM (Num 6))) (Num 1);
          periodIdxVec = xSEQUENCE numPeriods (Num 0);
          annIdxVec = map (xadd startIdx) periodIdxVec;
          varVec = map (xINDEX_col (RatesB rs)) annIdxVec
      in map (halfFac fixed) varVec)"

definition cumProdVec :: "rates \<Rightarrow> cell \<Rightarrow> cell \<Rightarrow> cell \<Rightarrow> cell list" where
  "cumProdVec rs issue fixed maxM =
     xSCAN (Num 1) (halfFacVec rs issue fixed maxM) (\<lambda>a x. xmul a x)"

definition Value :: "rates \<Rightarrow> cell \<Rightarrow> cell \<Rightarrow> cell \<Rightarrow> cell \<Rightarrow> cell list" where
  "Value rs b3 b4 b5 b6 =
     xIFa (xeq b3 (Str [])) [Str []]
       (let m = MonthIndex b3 b6; princ = b4; fixed = b5; maxM = b6; issue = b3
        in map (\<lambda>mi. let k = xINT (xdiv mi (Num 6));
                         r = xMOD mi (Num 6);
                         fullProd = xINDEX_arr (cumProdVec rs issue fixed maxM) (xadd k (Num 1));
                         partial = xPOWER (xINDEX_arr (halfFacVec rs issue fixed maxM) (xadd k (Num 1)))
                                     (xdiv r (Num 6))
                     in xROUND (xmul (xmul princ fullProd) partial) 2) m)"

section \<open>Notions used to state the properties\<close>

text \<open>
  The growth factor of a period as a real number, for a fixed rate \<open>f\<close> and a variable
  rate \<open>v\<close>: the value of \<open>halfFac\<close> on numbers.
\<close>

definition half_factor :: "real \<Rightarrow> real \<Rightarrow> real" where
  "half_factor f v = 1 + (f + v + f * v) / 2"

text \<open>The cell of \<open>Rates!B:B\<close> in sheet row \<open>n\<close>.\<close>

definition rate_row :: "rates \<Rightarrow> nat \<Rightarrow> cell" where
  "rate_row rs n = xINDEX_col (RatesB rs) (Num (of_nat n))"

text \<open>A cell that shows an error code.\<close>

fun is_error :: "cell \<Rightarrow> bool" where
  "is_error (Err e) = True"
| "is_error c = False"



text \<open>
  The issue date (serial \<open>d\<close>) lies before every effective date of the rate table.
\<close>

definition issue_before_table :: "real \<Rightarrow> rates \<Rightarrow> bool" where
  "issue_before_table d rs = list_all (\<lambda>c. case c of Num e \<Rightarrow> d < e | _ \<Rightarrow> True) (map fst rs)"

text \<open>
  The calendar in terms of months. A month is numbered \<open>12 * y + (m - 1)\<close>;
  \<open>month_start\<close> is the day number (days since 1970-01-01) of its first day,
  \<open>month_length\<close> its length in the Gregorian calendar. \<open>month_index\<close> and
  \<open>day_of_month\<close> give the month and the day of the month of a serial number.
\<close>

definition leap_year :: "int \<Rightarrow> bool" where
  "leap_year y = (y mod 4 = 0 \<and> (y mod 100 \<noteq> 0 \<or> y mod 400 = 0))"

definition month_length :: "int \<Rightarrow> int \<Rightarrow> int" where
  "month_length y m =
     (if m = 2 then (if leap_year y then 29 else 28)
      else if m = 4 \<or> m = 6 \<or> m = 9 \<or> m = 11 then 30 else 31)"

definition month_start :: "int \<Rightarrow> int" where
  "month_start M = days_from_civil (M div 12) (M mod 12 + 1) 1"

definition month_index :: "int \<Rightarrow> int" where
  "month_index n = (case civil_of_serial n of (y, m, d) \<Rightarrow> 12 * y + (m - 1))"

definition day_of_month :: "int \<Rightarrow> int" where
  "day_of_month n = (case civil_of_serial n of (y, m, d) \<Rightarrow> d)"

section \<open>Example entries\<close>

text \<open>
  A rate table with the announcements of 2023-11-01 (4%) and 2024-05-01 (2%), and the
  table of the specification's scenario, 2024-05-01 (4.9%) and 2024-11-01 (3.9%). The
  bond of the examples is issued 2024-01-15 (serial 45306).
\<close>

definition ex_rates :: rates where
  "ex_rates = [(Num 45231, Num (4 / 100)), (Num 45413, Num (2 / 100))]"

definition ex_rates_late :: rates where
  "ex_rates_late = [(Num 45413, Num (49 / 1000)), (Num 45597, Num (39 / 1000))]"


text \<open>
  Tables with one rate in every row, announced 2023-11-01, 2024-05-01 and 2024-11-01:
  4%, and (far from any real rate) -300%, which makes the growth factor \<open>-1/2\<close>.
\<close>

definition ex_rates_flat :: rates where
  "ex_rates_flat = [(Num 45231, Num (4 / 100)), (Num 45413, Num (4 / 100)), (Num 45597, Num (4 / 100))]"

definition ex_rates_neg :: rates where
  "ex_rates_neg = [(Num 45231, Num (- 3)), (Num 45413, Num (- 3)), (Num 45597, Num (- 3))]"

text \<open>A row with an issue date and a fixed rate and no purchase amount.\<close>

definition ex_row_no_amount :: bond_row where
  "ex_row_no_amount =
     \<lparr>BondID = Str ''EX-0002'', Owner = Str ''Sample Owner'', IssueDate = Num 45306,
      PurchaseAmount = Blank, FixedRate = Num (9 / 1000), MonthsToProject = Num 120\<rparr>"

text \<open>
  The example row that \<open>build_inventory\<close> writes into row 2, as the only row of the
  Inventory table.
\<close>

definition example_row :: bond_row where
  "example_row =
     \<lparr>BondID = Str ''EX-0001'', Owner = Str ''Sample Owner'', IssueDate = Num 45306,
      PurchaseAmount = Num 1000, FixedRate = Num (9 / 1000), MonthsToProject = Num 120\<rparr>"

text \<open>
  The rows that \<open>build_rates\<close> writes into the Rates sheet: 2024-05-01, 2024-11-01 and
  2025-05-01, each with the rate 0.
\<close>

definition example_rates :: rates where
  "example_rates = [(Num 45413, Num 0), (Num 45597, Num 0), (Num 45778, Num 0)]"

section \<open>The spreadsheet functions on numbers\<close>

lemma halfFac_num: "to_num c = Inr v \<Longrightarrow> halfFac (Num f) c = Num (half_factor f v)"
  by (simp add: halfFac_def half_factor_def xadd_def xmul_def xdiv_def num2_def)

lemma floor_nat_div6: "\<lfloor>real m / 6\<rfloor> = int (m div 6)"
  using floor_divide_of_nat_eq [of m 6, where ?'a = real] by simp

lemma fullPeriods_nat: "xINT (xdiv (Num (of_nat m)) (Num 6)) = Num (of_nat (m div 6))"
  by (simp add: xINT_def xdiv_def num1_def num2_def floor_nat_div6)

lemma monthsInPeriod_nat: "xMOD (Num (of_nat m)) (Num 6) = Num (of_nat (m mod 6))"
proof -
  have "real m - 6 * real (m div 6) = real (m mod 6)"
    by (metis (no_types) add_diff_cancel_left' mult_div_mod_eq of_nat_add of_nat_mult of_nat_numeral)
  then show ?thesis
    by (simp add: xMOD_def num2_def floor_nat_div6)
qed

lemma xSEQUENCE_nat:
  "0 < k \<Longrightarrow> xSEQUENCE (Num (of_nat k)) (Num (of_nat s)) = map (\<lambda>i. Num (of_nat (s + i))) [0..<k]"
  by (simp add: xSEQUENCE_def)


lemma match_scan_bounds:
  "match_scan k col pos = Some p \<Longrightarrow> pos \<le> p \<and> p < pos + length col"
proof (induction col arbitrary: pos)
  case Nil
  then show ?case by simp
next
  case (Cons c cs)
  show ?case
  proof (cases "match_scan k cs (pos + 1)")
    case None
    with Cons.prems show ?thesis by (auto split: cell.splits if_splits)
  next
    case (Some q)
    with Cons.prems have "q = p" by simp
    with Some Cons.IH [of "pos + 1"] show ?thesis by auto
  qed
qed

lemma xMATCH1_pos:
  assumes "xMATCH1 issue col = Num (of_nat s)"
  shows "1 \<le> s"
proof (cases issue)
  case (Num k)
  with assms obtain p where p: "match_scan k col 1 = Some p" and "real p = real s"
    by (auto split: option.splits)
  then have "p = s" by simp
  with match_scan_bounds [OF p] show ?thesis by simp
qed (use assms in auto)

declare xMATCH1.simps [simp del]

lemma varVec_closed:
  assumes "xMATCH1 issue (RatesA rs) = Num (of_nat s)" and "6 \<le> m"
  shows "varVec rs issue (Num (of_nat m)) = map (\<lambda>i. rate_row rs (s + i)) [0..<m div 6]"
proof -
  from assms(2) have k: "0 < m div 6" by (simp add: div_greater_zero_iff)
  then show ?thesis
    by (simp add: varVec_def Let_def fullPeriods_nat assms(1) xIFa_def xSEQUENCE_nat rate_row_def o_def)
qed

lemma lastVar_closed:
  assumes "xMATCH1 issue (RatesA rs) = Num (of_nat s)"
  shows "lastVar rs issue (Num (of_nat m)) = rate_row rs (s + m div 6)"
  by (simp add: lastVar_def Let_def fullPeriods_nat assms xadd_def num2_def rate_row_def)

lemma xSUM_nums:
  "(\<And>x. x \<in> set xs \<Longrightarrow> F x = Num (h x)) \<Longrightarrow> xSUM (map F xs) = Num (sum_list (map h xs))"
  by (induction xs) simp_all

lemma xLN_cases: "(\<exists>x. xLN c = Num x) \<or> (\<exists>e. xLN c = Err e)"
  by (cases c) (simp_all add: xLN_def num1_def)

lemma xSUM_error:
  assumes "\<And>x. x \<in> set xs \<Longrightarrow> (\<exists>y. F x = Num y) \<or> (\<exists>e. F x = Err e)"
    and "\<exists>x \<in> set xs. \<exists>e. F x = Err e"
  shows "\<exists>e. xSUM (map F xs) = Err e"
  using assms
proof (induction xs)
  case Nil
  then show ?case by simp
next
  case (Cons a xs)
  from Cons.prems(1) [of a] consider y where "F a = Num y" | e where "F a = Err e" by auto
  then show ?case
  proof cases
    case 1
    with Cons.prems(2) have "\<exists>x \<in> set xs. \<exists>e. F x = Err e" by auto
    with Cons.IH Cons.prems(1) obtain e where "xSUM (map F xs) = Err e" by auto
    with 1 show ?thesis by simp
  next
    case 2
    then show ?thesis by simp
  qed
qed

lemma exp_sum_list_ln:
  "(\<And>x. x \<in> set xs \<Longrightarrow> 0 < g x) \<Longrightarrow> exp (sum_list (map (\<lambda>x. ln (g x)) xs)) = prod_list (map g xs)"
  for g :: "'a \<Rightarrow> real"
  by (induction xs) (simp_all add: exp_add)

lemma fullProd_zero:
  assumes "m < 6"
  shows "fullProd rs issue fixed (Num (of_nat m)) = Num 1"
  using assms by (simp add: fullProd_def Let_def fullPeriods_nat xIF_def)

lemma xLN_halfFac_pos:
  assumes "to_num c = Inr v" and "0 < half_factor f v"
  shows "xLN (halfFac (Num f) c) = Num (ln (half_factor f v))"
  using assms by (simp add: halfFac_num xLN_def num1_def)

lemma xLN_halfFac_nonpos:
  assumes "to_num c = Inr v" and "half_factor f v \<le> 0"
  shows "xLN (halfFac (Num f) c) = Err E_NUM"
  using assms by (simp add: halfFac_num xLN_def num1_def)

lemma fullProd_closed:
  assumes match: "xMATCH1 issue (RatesA rs) = Num (of_nat s)"
    and rates: "\<And>i. i < m div 6 \<Longrightarrow> to_num (rate_row rs (s + i)) = Inr (v i)"
    and pos: "\<And>i. i < m div 6 \<Longrightarrow> 0 < half_factor f (v i)"
  shows "fullProd rs issue (Num f) (Num (of_nat m)) =
           Num (prod_list (map (\<lambda>i. half_factor f (v i)) [0..<m div 6]))"
proof (cases "m < 6")
  case True
  then show ?thesis by (simp add: fullProd_zero)
next
  case False
  then have m: "6 \<le> m" by simp
  then have k: "0 < m div 6" by (simp add: div_greater_zero_iff)
  have "xSUM (map (\<lambda>i. xLN (halfFac (Num f) (rate_row rs (s + i)))) [0..<m div 6]) =
          Num (sum_list (map (\<lambda>i. ln (half_factor f (v i))) [0..<m div 6]))"
    by (rule xSUM_nums) (simp add: xLN_halfFac_pos rates pos)
  moreover have "exp (sum_list (map (\<lambda>i. ln (half_factor f (v i))) [0..<m div 6])) =
          prod_list (map (\<lambda>i. half_factor f (v i)) [0..<m div 6])"
    by (rule exp_sum_list_ln) (simp add: pos)
  ultimately show ?thesis
    using k by (simp add: fullProd_def Let_def fullPeriods_nat xIF_def varVec_closed [OF match m]
        o_def xEXP_def num1_def)
qed

lemma fullProd_fault:
  assumes match: "xMATCH1 issue (RatesA rs) = Num (of_nat s)"
    and rates: "\<And>i. i < m div 6 \<Longrightarrow> to_num (rate_row rs (s + i)) = Inr (v i)"
    and bad: "j < m div 6" "half_factor f (v j) \<le> 0"
  shows "\<exists>e. fullProd rs issue (Num f) (Num (of_nat m)) = Err e"
proof -
  from bad(1) have k: "0 < m div 6" by simp
  then have m: "6 \<le> m" by (simp add: div_greater_zero_iff)
  have "\<exists>e. xSUM (map (\<lambda>i. xLN (halfFac (Num f) (rate_row rs (s + i)))) [0..<m div 6]) = Err e"
  proof (rule xSUM_error)
    show "(\<exists>y. xLN (halfFac (Num f) (rate_row rs (s + i))) = Num y) \<or>
          (\<exists>e. xLN (halfFac (Num f) (rate_row rs (s + i))) = Err e)" for i
      by (rule xLN_cases)
    show "\<exists>i \<in> set [0..<m div 6]. \<exists>e. xLN (halfFac (Num f) (rate_row rs (s + i))) = Err e"
      using bad xLN_halfFac_nonpos [OF rates [OF bad(1)] bad(2)] by auto
  qed
  then obtain e where "xSUM (map (\<lambda>i. xLN (halfFac (Num f) (rate_row rs (s + i)))) [0..<m div 6]) = Err e" ..
  then show ?thesis
    using k by (simp add: fullProd_def Let_def fullPeriods_nat xIF_def varVec_closed [OF match m]
        o_def xEXP_def num1_def)
qed

lemma partial_closed:
  assumes match: "xMATCH1 issue (RatesA rs) = Num (of_nat s)"
    and rate: "to_num (rate_row rs (s + m div 6)) = Inr w"
    and pos: "0 < half_factor f w"
  shows "partial rs issue (Num f) (Num (of_nat m)) = Num (half_factor f w powr (real (m mod 6) / 6))"
  using pos
  by (simp add: partial_def Let_def monthsInPeriod_nat lastVar_closed [OF match]
      halfFac_num [OF rate] xdiv_def xPOWER_def num2_def)

lemma value_at_closed:
  assumes match: "xMATCH1 issue (RatesA rs) = Num (of_nat s)"
    and rates: "\<And>i. i \<le> m div 6 \<Longrightarrow> to_num (rate_row rs (s + i)) = Inr (v i)"
    and pos: "\<And>i. i \<le> m div 6 \<Longrightarrow> 0 < half_factor f (v i)"
  shows "value_at rs issue (Num P) (Num f) (Num (of_nat m)) =
           Num (round_half_away
             (P * prod_list (map (\<lambda>i. half_factor f (v i)) [0..<m div 6])
                * half_factor f (v (m div 6)) powr (real (m mod 6) / 6)) 2)"
proof -
  have fp: "fullProd rs issue (Num f) (Num (of_nat m)) =
           Num (prod_list (map (\<lambda>i. half_factor f (v i)) [0..<m div 6]))"
    by (rule fullProd_closed [OF match]) (simp_all add: rates pos)
  have pa: "partial rs issue (Num f) (Num (of_nat m)) =
          Num (half_factor f (v (m div 6)) powr (real (m mod 6) / 6))"
    by (rule partial_closed [OF match]) (simp_all add: rates pos)
  show ?thesis
    by (simp add: value_at_def fp pa xmul_def num2_def xROUND_def num1_def)
qed

section \<open>Errors run through the arithmetic\<close>

lemma is_error_iff: "is_error c \<longleftrightarrow> (\<exists>e. c = Err e)"
  by (cases c) simp_all

lemma num1_error: "is_error a \<Longrightarrow> is_error (num1 f a)"
  by (cases a) (simp_all add: num1_def)

lemma num2_error_left: "is_error a \<Longrightarrow> is_error (num2 f a b)"
  by (cases a) (simp_all add: num2_def)

lemma num2_error_right: "is_error b \<Longrightarrow> is_error (num2 f a b)"
  by (cases b; cases "to_num a") (simp_all add: num2_def)

lemma xIFERROR_error: "is_error c \<Longrightarrow> xIFERROR c d = d"
  by (cases c) simp_all

lemma xIF_Bool: "xIF (Bool b) x y = (if b then x else y)"
  by (simp add: xIF_def)

lemma xIFa_Bool: "xIFa (Bool b) x y = (if b then x else y)"
  by (simp add: xIFa_def)

lemma halfFac_error: "is_error v \<Longrightarrow> is_error (halfFac fixed v)"
  unfolding halfFac_def xadd_def xdiv_def xmul_def
  by (intro num2_error_right num2_error_left)

lemma value_at_partial_error:
  assumes "is_error (partial rs issue fixed mths)"
  shows "value_at rs issue princ fixed mths = Str []"
  unfolding value_at_def xROUND_def xmul_def
  by (intro xIFERROR_error num1_error num2_error_right assms)

lemma value_at_fullProd_error:
  assumes "is_error (fullProd rs issue fixed mths)"
  shows "value_at rs issue princ fixed mths = Str []"
  unfolding value_at_def xROUND_def xmul_def
  by (intro xIFERROR_error num1_error num2_error_left num2_error_right assms)

lemma value_at_match_error:
  assumes "is_error (xMATCH1 issue (RatesA rs))"
  shows "value_at rs issue princ fixed mths = Str []"
proof (rule value_at_partial_error)
  have "is_error (lastVar rs issue mths)"
    unfolding lastVar_def Let_def xINDEX_col_def xadd_def
    by (intro num1_error num2_error_left assms)
  then show "is_error (partial rs issue fixed mths)"
    unfolding partial_def Let_def xPOWER_def
    by (intro num2_error_left halfFac_error)
qed

section \<open>The value at the issue month\<close>

text \<open>
  The dates of the examples below, as serial numbers.
\<close>

lemma dates_used:
  "serial_of_civil 2023 11 1 = 45231" "serial_of_civil 2024 1 15 = 45306"
  "serial_of_civil 2024 1 20 = 45311" "serial_of_civil 2024 2 1 = 45323"
  "serial_of_civil 2024 5 1 = 45413"
  "serial_of_civil 2024 7 15 = 45488" "serial_of_civil 2024 7 20 = 45493"
  "serial_of_civil 2024 11 1 = 45597" "serial_of_civil 2025 1 20 = 45677"
  by code_simp+

lemma round_cents:
  "round_half_away (of_int c / 100) 2 = of_int c / 100"
proof -
  have "\<bar>real_of_int c / 100\<bar> * 10 ^ 2 + 1 / 2 = of_int \<bar>c\<bar> + 1 / 2"
    by simp
  moreover have "\<lfloor>real_of_int \<bar>c\<bar> + 1 / 2\<rfloor> = \<bar>c\<bar>"
    by linarith
  moreover have "sgn (real_of_int c / 100) * real_of_int \<bar>c\<bar> = real_of_int c"
    by (simp add: sgn_if)
  ultimately show ?thesis
    unfolding round_half_away_def by simp
qed

lemma partial_whole_period:
  assumes match: "xMATCH1 issue (RatesA rs) = Num (of_nat s)"
    and rate: "to_num (rate_row rs (s + m div 6)) = Inr w"
    and nz: "half_factor f w \<noteq> 0"
    and r: "m mod 6 = 0"
  shows "partial rs issue (Num f) (Num (of_nat m)) = Num 1"
  using nz r
  by (simp add: partial_def Let_def monthsInPeriod_nat lastVar_closed [OF match]
      halfFac_num [OF rate] xdiv_def xPOWER_def num2_def)

lemma fullProd_at_issue: "fullProd rs issue fixed (Num 0) = Num 1"
  using fullProd_zero [of 0 rs issue fixed] by simp

lemma guard_numbers:
  "xIF (xOR [xeq (Num d) (Str []), xeq (Num P) (Str []), xeq (Num f) (Str [])]) (Str []) x = x"
  by (simp add: xIF_def)

lemma CurrentValue_numbers:
  "CurrentValue rs today (Num d) (Num P) (Num f) =
     value_at rs (Num d) (Num P) (Num f) (months today (Num d))"
  unfolding CurrentValue_def Let_def by (rule guard_numbers)

text \<open>
  Claim C1, as far as the code carries it: for a bond whose issue date, purchase amount
  and fixed rate are numbers, held zero months, whose issue date finds a row in the
  rate table (an effective date not after it) with a numeric rate and a growth factor
  other than zero, and whose purchase amount is a whole number of cents, the Inventory
  CurrentValue is exactly the purchase amount. (For an amount that is not whole cents
  the result is the amount rounded to cents.)
\<close>

theorem C1_value_at_issue:
  assumes "months today (Num d) = Num 0"
    and "xMATCH1 (Num d) (RatesA rs) = Num (of_nat s)"
    and "to_num (rate_row rs s) = Inr v"
    and "half_factor f v \<noteq> 0"
    and "P = of_int c / 100"
  shows "CurrentValue rs today (Num d) (Num P) (Num f) = Num P"
proof -
  have pa: "partial rs (Num d) (Num f) (Num 0) = Num 1"
    using partial_whole_period [OF assms(2), of 0 v f] assms(3,4) by simp
  have "value_at rs (Num d) (Num P) (Num f) (Num 0) = Num (round_half_away P 2)"
    using fullProd_at_issue [of rs "Num d" "Num f"] pa by (simp add: value_at_def xmul_def num2_def xROUND_def num1_def)
  then show ?thesis
    by (simp add: CurrentValue_numbers assms(1) assms(5) round_cents)
qed

text \<open>
  An instance: issued 2024-01-15, read on 2024-01-20, rates announced 2023-11-01 (4%)
  and 2024-05-01 (2%), fixed rate 0, amount 1000.
\<close>

lemma months_ex1: "months (Num 45311) (Num 45306) = Num 0"
  by code_simp

lemma match_ex1: "xMATCH1 (Num 45306) (RatesA ex_rates) = Num (of_nat 2)"
  by code_simp

lemma rate_ex1: "to_num (rate_row ex_rates 2) = Inr (4 / 100)"
  by code_simp

theorem C1_value_at_issue_witness:
  "CurrentValue ex_rates (Num 45311)
     (Num 45306) (Num 1000) (Num 0) = Num 1000"
  using C1_value_at_issue [OF months_ex1 match_ex1 rate_ex1, of 0 1000 100000]
  by (simp add: half_factor_def)

text \<open>
  As the claim is written, for every bond whose three entries are not blank, it fails:
  a bond issued before the first effective date of the rate table is held zero months
  and its CurrentValue is the empty text, not the purchase amount.
\<close>

lemma match_miss_ex: "xMATCH1 (Num 45306) (RatesA ex_rates_late) = Err E_NA"
  by code_simp

theorem C1_counterexample:
  "months (Num 45311) (Num 45306) = Num 0 \<and>
   CurrentValue ex_rates_late (Num 45311)
     (Num 45306) (Num 1000) (Num (9 / 1000)) = Str []"
proof -
  have "is_error (xMATCH1 (Num 45306) (RatesA ex_rates_late))"
    by (simp only: match_miss_ex is_error.simps)
  then show ?thesis
    by (simp only: months_ex1 CurrentValue_numbers value_at_match_error simp_thms)
qed

section \<open>The schedule's Value column against the Inventory formula\<close>

lemma MonthIndex_ex2: "MonthIndex (Num 45306) (Num 0) = [Num 0]"
  by code_simp

lemma halfFacVec_ex2:
  "halfFacVec ex_rates (Num 45306) (Num 0) (Num 0) =
     [Num (51 / 50)]"
  by code_simp

lemma cumProdVec_ex2:
  "cumProdVec ex_rates (Num 45306) (Num 0) (Num 0) =
     [Num (51 / 50)]"
  by code_simp

lemma round_1020: "round_half_away 1020 2 = 1020"
  using round_cents [of 102000] by simp

lemma round_1000: "round_half_away 1000 2 = 1000"
  using round_cents [of 100000] by simp

text \<open>
  Claim C2 says that the Value column of the schedule gives, at every month offset,
  what the Inventory formula gives at that offset. The code does not: \<open>SCAN\<close> yields the
  running products including the current element, so \<open>INDEX(cumProdVec, k+1)\<close> is the
  product of the factors of the periods 0 to \<open>k\<close>, one factor more than the \<open>k\<close> full
  periods the Inventory formula multiplies. For the bond issued 2024-01-15 with amount
  1000 and fixed rate 0, under a variable rate of 4%, the schedule row of month 0 shows
  1020.00 where the Inventory formula at zero months gives 1000.00.
\<close>

theorem C2_schedule_value_differs:
  "Value ex_rates
     (Num 45306) (Num 1000) (Num 0) (Num 0) = [Num 1020] \<and>
   value_at ex_rates
     (Num 45306) (Num 1000) (Num 0) (Num 0) = Num 1000"
proof
  show "Value ex_rates
     (Num 45306) (Num 1000) (Num 0) (Num 0) = [Num 1020]"
    by (simp add: Value_def xIFa_Bool Let_def MonthIndex_ex2 halfFacVec_ex2 cumProdVec_ex2
        xINT_def xMOD_def xdiv_def xadd_def xmul_def num1_def num2_def xINDEX_arr_def xPOWER_def
        xROUND_def round_1020)
next
  have pa: "partial ex_rates (Num 45306) (Num 0) (Num 0) = Num 1"
    using partial_whole_period [OF match_ex1, of 0 "4 / 100" 0] rate_ex1
    by (simp add: half_factor_def)
  show "value_at ex_rates
     (Num 45306) (Num 1000) (Num 0) (Num 0) = Num 1000"
    by (simp add: value_at_def fullProd_at_issue pa xmul_def num2_def xROUND_def num1_def round_1000)
qed

section \<open>The calendar of the serial numbers\<close>

lemma div_bounds:
  fixes x k :: int
  assumes "0 < k"
  shows "k * (x div k) \<le> x" and "x < k * (x div k) + k"
proof -
  have "x = k * (x div k) + x mod k" by simp
  moreover have "0 \<le> x mod k" "x mod k < k" using assms by simp_all
  ultimately show "k * (x div k) \<le> x" and "x < k * (x div k) + k" by linarith+
qed

lemma div_eqI:
  fixes x k q :: int
  assumes "k * q \<le> x" and "x < k * q + k"
  shows "x div k = q"
proof (rule int_div_pos_eq)
  show "x = k * q + (x - k * q)" by simp
  show "0 \<le> x - k * q" using assms by simp
  show "x - k * q < k" using assms by simp
qed

text \<open>
  The year within a century of 36524 days; \<open>24 * c\<close> is what the centuries before add to
  the count of four-year spans of 1460 days.
\<close>

lemma year_in_century:
  fixes r c :: int
  assumes r: "0 \<le> r" "r < 36524" and c: "0 \<le> c" "c \<le> 3"
  defines "u \<equiv> (24 * c + r) div 1460"
  defines "j \<equiv> (r - u) div 365"
  shows "0 \<le> j" and "j \<le> 99" and "365 * j + j div 4 \<le> r"
    and "r \<le> 365 * j + j div 4 + 364 + (if j mod 4 = 3 \<and> j \<noteq> 99 then 1 else 0)"
proof -
  have u1: "1460 * u \<le> 24 * c + r" and u2: "24 * c + r < 1460 * u + 1460"
    unfolding u_def by (rule div_bounds; simp)+
  have j1: "365 * j \<le> r - u" and j2: "r - u < 365 * j + 365"
    unfolding j_def by (rule div_bounds; simp)+
  define q where "q = j div 4"
  have q1: "4 * q \<le> j" and q2: "j < 4 * q + 4"
    unfolding q_def by (rule div_bounds; simp)+
  have u0: "0 \<le> u" using u2 r c by linarith
  have u25: "u \<le> 25" using u1 r c by linarith
  show j0: "0 \<le> j"
  proof (cases "u \<le> 0")
    case True
    with j2 r u0 show ?thesis by linarith
  next
    case False
    with u1 c u25 j2 show ?thesis by linarith
  qed
  show j99: "j \<le> 99"
  proof (rule ccontr)
    assume "\<not> j \<le> 99"
    then have "100 \<le> j" by simp
    with j1 u0 have "36500 \<le> r" by linarith
    with u2 c have "25 \<le> u" by linarith
    with j1 \<open>100 \<le> j\<close> r show False by linarith
  qed
  have qu: "q \<le> u" using u2 c j1 q1 u0 by linarith
  with j1 show "365 * j + j div 4 \<le> r" unfolding q_def by linarith
  define a where "a = (j + 1) div 4"
  have a1: "4 * a \<le> j + 1" and a2: "j + 1 < 4 * a + 4"
    unfolding a_def by (rule div_bounds; simp)+
  have ua: "u \<le> a" using u1 c j2 a2 u25 by linarith
  have aq: "a = q + (if j mod 4 = 3 then 1 else 0)"
    unfolding a_def q_def by presburger
  show "r \<le> 365 * j + j div 4 + 364 + (if j mod 4 = 3 \<and> j \<noteq> 99 then 1 else 0)"
  proof (cases "j = 99")
    case True
    then have "j div 4 = 24" by simp
    with True r show ?thesis by simp
  next
    case False
    with ua aq j2 show ?thesis unfolding q_def by (simp split: if_splits)
  qed
qed

lemma year_in_era:
  fixes doe :: int
  assumes "0 \<le> doe" and "doe \<le> 146096"
  defines "yoe \<equiv> (doe - doe div 1460 + doe div 36524 - doe div 146096) div 365"
  defines "doy \<equiv> doe - (365 * yoe + yoe div 4 - yoe div 100)"
  shows "0 \<le> yoe \<and> yoe \<le> 399 \<and> 0 \<le> doy \<and> doy \<le> 364 + (if leap_year (yoe + 1) then 1 else 0)"
proof (cases "doe = 146096")
  case True
  then show ?thesis
    by (simp add: yoe_def doy_def leap_year_def)
next
  case False
  with assms(2) have lt: "doe < 146096" by simp
  define c where "c = doe div 36524"
  define r where "r = doe - 36524 * c"
  have c1: "36524 * c \<le> doe" and c2: "doe < 36524 * c + 36524"
    unfolding c_def by (rule div_bounds; simp)+
  have c: "0 \<le> c" "c \<le> 3" using c1 c2 assms(1) lt by linarith+
  have r: "0 \<le> r" "r < 36524" using c1 c2 by (simp_all add: r_def)
  define u where "u = (24 * c + r) div 1460"
  define j where "j = (r - u) div 365"
  note yc = year_in_century [OF r c, folded u_def j_def]
  have u1: "1460 * u \<le> 24 * c + r" and u2: "24 * c + r < 1460 * u + 1460"
    unfolding u_def by (rule div_bounds; simp)+
  have j1: "365 * j \<le> r - u" and j2: "r - u < 365 * j + 365"
    unfolding j_def by (rule div_bounds; simp)+
  have d1460: "doe div 1460 = 25 * c + u"
    by (rule div_eqI) (use u1 u2 in \<open>simp_all add: r_def\<close>)
  have d146096: "doe div 146096 = 0"
    by (rule div_eqI) (use assms(1) lt in simp_all)
  have yoe: "yoe = 100 * c + j"
    unfolding yoe_def d1460 d146096 c_def [symmetric]
    by (rule div_eqI) (use j1 j2 in \<open>simp_all add: r_def\<close>)
  define q where "q = j div 4"
  have q1: "4 * q \<le> j" and q2: "j < 4 * q + 4"
    unfolding q_def by (rule div_bounds; simp)+
  have y4: "yoe div 4 = 25 * c + q"
    unfolding yoe by (rule div_eqI) (use q1 q2 in simp_all)
  have y100: "yoe div 100 = c"
    unfolding yoe by (rule div_eqI) (use yc(1,2) in simp_all)
  have doy: "doy = r - (365 * j + j div 4)"
    unfolding doy_def y4 y100 by (simp add: yoe r_def q_def)
  have leap: "leap_year (yoe + 1)" if "j mod 4 = 3 \<and> j \<noteq> 99"
  proof -
    have "(4 * (25 * c) + (j + 1)) mod 4 = (j + 1) mod 4"
      by (rule mod_mult_self4)
    moreover from that have "(j + 1) mod 4 = 0" by presburger
    ultimately have m4: "(100 * c + j + 1) mod 4 = 0" by (simp add: add.assoc)
    have "(100 * c + (j + 1)) mod 100 = (j + 1) mod 100"
      by (rule mod_mult_self4)
    moreover from that yc(1,2) have "(j + 1) mod 100 = j + 1" by (intro mod_pos_pos_trivial) simp_all
    ultimately have m100: "(100 * c + j + 1) mod 100 \<noteq> 0" using yc(1) by (simp add: add.assoc)
    from m4 m100 show ?thesis by (simp add: leap_year_def yoe)
  qed
  have "0 \<le> yoe" "yoe \<le> 399" using yc(1,2) c by (simp_all add: yoe)
  moreover have "0 \<le> doy" using yc(3) by (simp add: doy)
  moreover have "doy \<le> 364 + (if leap_year (yoe + 1) then 1 else 0)"
    using yc(4) leap by (simp add: doy split: if_splits)
  ultimately show ?thesis by blast
qed

lemma month_in_year:
  fixes doy :: int
  assumes "0 \<le> doy" and "doy \<le> 365"
  defines "mp \<equiv> (5 * doy + 2) div 153"
  shows "0 \<le> mp" and "mp \<le> 11" and "(153 * mp + 2) div 5 \<le> doy"
    and "doy < (153 * (mp + 1) + 2) div 5"
proof -
  have m1: "153 * mp \<le> 5 * doy + 2" and m2: "5 * doy + 2 < 153 * mp + 153"
    unfolding mp_def by (rule div_bounds; simp)+
  show "0 \<le> mp" "mp \<le> 11" using m1 m2 assms(1,2) by linarith+
  define t where "t = (153 * mp + 2) div 5"
  have t1: "5 * t \<le> 153 * mp + 2"
    unfolding t_def by (rule div_bounds; simp)
  with m1 have "t \<le> doy" by linarith
  then show "(153 * mp + 2) div 5 \<le> doy" by (simp only: t_def)
  define t' where "t' = (153 * (mp + 1) + 2) div 5"
  have "153 * (mp + 1) + 2 < 5 * t' + 5"
    unfolding t'_def by (rule div_bounds; simp)
  then have "153 * mp + 151 \<le> 5 * t'" by simp
  moreover from m2 have "5 * doy \<le> 153 * mp + 150" by simp
  ultimately have "doy < t'" by linarith
  then show "doy < (153 * (mp + 1) + 2) div 5" by (simp only: t'_def)
qed

section \<open>Which rate a period uses\<close>






lemma MonthIndex_closed:
  "MonthIndex (Num d) (Num (of_nat n)) = map (\<lambda>i. Num (of_nat i)) [0..<n + 1]"
proof -
  have "xadd (Num (of_nat n)) (Num 1) = Num (of_nat (n + 1))"
    by (simp add: xadd_def num2_def)
  then show ?thesis
    using xSEQUENCE_nat [of "n + 1" 0] by (simp add: MonthIndex_def xIFa_Bool)
qed








section \<open>A constant rate over whole periods\<close>

lemma prod_list_const: "prod_list (map (\<lambda>i. c) xs) = c ^ length xs" for c :: real
  by (induction xs) simp_all

text \<open>
  Claim C4, as far as the code carries it: for a bond held exactly \<open>6 * k\<close> months whose
  looked-up variable rate is the same \<open>v\<close> in the periods 0 to \<open>k\<close>, with fixed rate \<open>f\<close>
  and purchase amount \<open>P\<close>, and with a positive growth factor \<open>1 + (f + v + f * v) / 2\<close>,
  the CurrentValue is \<open>P * (1 + (f + v + f * v) / 2) ^ k\<close> rounded to two decimals.
\<close>

theorem C4_constant_rate:
  assumes "months today (Num d) = Num (of_nat (6 * k))"
    and "xMATCH1 (Num d) (RatesA rs) = Num (of_nat s)"
    and "\<forall>i \<le> k. to_num (rate_row rs (s + i)) = Inr v"
    and "0 < 1 + (f + v + f * v) / 2"
  shows "CurrentValue rs today (Num d) (Num P) (Num f) =
           Num (round_half_away (P * (1 + (f + v + f * v) / 2) ^ k) 2)"
proof -
  have "value_at rs (Num d) (Num P) (Num f) (Num (of_nat (6 * k))) =
          Num (round_half_away
             (P * prod_list (map (\<lambda>i. half_factor f v) [0..<6 * k div 6])
                * half_factor f v powr (real (6 * k mod 6) / 6)) 2)"
    by (rule value_at_closed [OF assms(2)]) (use assms(3,4) in \<open>simp_all add: half_factor_def\<close>)
  then show ?thesis
    using assms(4)
    by (simp add: CurrentValue_numbers assms(1) prod_list_const half_factor_def)
qed

text \<open>
  An instance: issued 2024-01-15, read on 2024-07-20 (six months), 4% in every row,
  fixed rate 0, amount 1000: the value is 1020.00.
\<close>

lemma months_ex4: "months (Num 45493) (Num 45306) = Num (of_nat (6 * 1))"
  by code_simp

lemma match_ex4: "xMATCH1 (Num 45306) (RatesA ex_rates_flat) = Num (of_nat 2)"
  by code_simp

lemma rows_ex4:
  "to_num (rate_row ex_rates_flat (2 + 0)) = Inr (4 / 100)"
  "to_num (rate_row ex_rates_flat (2 + 1)) = Inr (4 / 100)"
  by code_simp+

theorem C4_constant_rate_witness:
  "CurrentValue ex_rates_flat (Num 45493) (Num 45306) (Num 1000) (Num 0) = Num 1020"
proof -
  have "to_num (rate_row ex_rates_flat (2 + i)) = Inr (4 / 100)" if "i \<le> 1" for i
  proof -
    from that have "i = 0 \<or> i = 1" by auto
    then show ?thesis
    proof
      assume "i = 0"
      with rows_ex4(1) show ?thesis by simp
    next
      assume "i = 1"
      with rows_ex4(2) show ?thesis by simp
    qed
  qed
  then have "\<forall>i \<le> 1. to_num (rate_row ex_rates_flat (2 + i)) = Inr (4 / 100)" by blast
  from C4_constant_rate [OF months_ex4 match_ex4 this, of 0 1000] show ?thesis
    by (simp add: round_1020)
qed

text \<open>
  As the claim is written, for every rate \<open>v\<close>, it fails where the growth factor is not
  positive: with -300% in every row the factor is \<open>-1/2\<close>, after twelve months (two
  full periods) the claimed value is \<open>1000 * (-1/2)^2 = 250.00\<close>, and the formula, which
  takes the logarithm of each factor, gives the empty text.
\<close>

lemma months_ex4n: "months (Num 45677) (Num 45306) = Num (of_nat 12)"
  by code_simp

lemma match_ex4n: "xMATCH1 (Num 45306) (RatesA ex_rates_neg) = Num (of_nat 2)"
  by code_simp

lemma rows_ex4n:
  "to_num (rate_row ex_rates_neg (2 + 0)) = Inr (- 3)"
  "to_num (rate_row ex_rates_neg (2 + 1)) = Inr (- 3)"
  by code_simp+

lemma CurrentValue_ex4n:
  "CurrentValue ex_rates_neg (Num 45677) (Num 45306) (Num 1000) (Num 0) = Str []"
proof -
  have rates: "to_num (rate_row ex_rates_neg (2 + i)) = Inr (- 3)" if "i < 12 div 6" for i
  proof -
    from that have "i = 0 \<or> i = 1" by auto
    then show ?thesis
    proof
      assume "i = 0"
      with rows_ex4n(1) show ?thesis by simp
    next
      assume "i = 1"
      with rows_ex4n(2) show ?thesis by simp
    qed
  qed
  have "\<exists>e. fullProd ex_rates_neg (Num 45306) (Num 0) (Num (of_nat 12)) = Err e"
    using fullProd_fault [OF match_ex4n rates, where j = 0 and f = 0 and m = 12]
    by (simp add: half_factor_def)
  then have "is_error (fullProd ex_rates_neg (Num 45306) (Num 0) (Num (of_nat 12)))"
    by (simp add: is_error_iff)
  then show ?thesis
    by (simp only: CurrentValue_numbers months_ex4n value_at_fullProd_error)
qed

theorem C4_counterexample:
  "months (Num 45677) (Num 45306) = Num 12 \<and>
   CurrentValue ex_rates_neg (Num 45677) (Num 45306) (Num 1000) (Num 0) = Str [] \<and>
   round_half_away (1000 * (1 + (0 + (- 3) + 0 * (- 3)) / 2) ^ 2) 2 = 250"
proof -
  have "round_half_away 250 2 = 250"
    using round_cents [of 25000] by simp
  then show ?thesis
    using months_ex4n by (simp add: CurrentValue_ex4n power2_eq_square)
qed

section \<open>Blank entries\<close>

lemma xeq_empty_cases:
  "\<not> is_error c \<Longrightarrow> xeq c (Str []) = Bool (c = Blank \<or> c = Str [])"
  by (cases c) auto

lemma guard_blank:
  assumes "\<not> is_error C" "\<not> is_error D" "\<not> is_error E"
  shows "xOR [xeq C (Str []), xeq D (Str []), xeq E (Str [])] =
           Bool ((C = Blank \<or> C = Str []) \<or> (D = Blank \<or> D = Str []) \<or> (E = Blank \<or> E = Str []))"
  using assms by (simp add: xeq_empty_cases)

lemma CurrentValue_blank:
  assumes "\<not> is_error C" "\<not> is_error D" "\<not> is_error E"
    and "(C = Blank \<or> C = Str []) \<or> (D = Blank \<or> D = Str []) \<or> (E = Blank \<or> E = Str [])"
  shows "CurrentValue rs today C D E = Str []"
proof -
  from assms have "xOR [xeq C (Str []), xeq D (Str []), xeq E (Str [])] = Bool True"
    using guard_blank [of C D E] by simp
  then show ?thesis
    by (simp add: CurrentValue_def xIF_Bool)
qed

lemma MonthsHeld_number:
  assumes "0 \<le> d" and "0 \<le> t"
  shows "(MonthsHeld (Num t) (Num d) = Str [] \<longleftrightarrow> \<lfloor>t\<rfloor> < \<lfloor>d\<rfloor>) \<and>
         (\<lfloor>d\<rfloor> \<le> \<lfloor>t\<rfloor> \<longrightarrow> (\<exists>x. MonthsHeld (Num t) (Num d) = Num x))"
proof -
  from assms have "0 \<le> \<lfloor>d\<rfloor>" "0 \<le> \<lfloor>t\<rfloor>" by simp_all
  then show ?thesis
    by (auto simp add: MonthsHeld_def xDATEDIF_m_def num2_def Let_def split: prod.splits)
qed

text \<open>
  Claim C5, as far as the code carries it: when one of the issue date, the purchase
  amount and the fixed rate of a row is blank (an empty cell or the empty text) and none
  of the three shows an error code, CurrentValue is the empty text. MonthsHeld reads the
  issue date only, whatever the purchase amount and the fixed rate hold: for a row whose
  issue date is a date, it is the empty text exactly when the issue date is after
  today, and a number otherwise. (What MonthsHeld shows for a blank issue date is not
  part of this statement.)
\<close>

theorem C5_blank_inputs:
  "(\<not> is_error (IssueDate row) \<and> \<not> is_error (PurchaseAmount row) \<and> \<not> is_error (FixedRate row) \<and>
      ((IssueDate row = Blank \<or> IssueDate row = Str []) \<or>
       (PurchaseAmount row = Blank \<or> PurchaseAmount row = Str []) \<or>
       (FixedRate row = Blank \<or> FixedRate row = Str []))
      \<longrightarrow> snd (computed_cells rs today row) = Str []) \<and>
   (IssueDate row = Num d \<and> today = Num t \<and> 0 \<le> d \<and> 0 \<le> t
      \<longrightarrow> (fst (computed_cells rs today row) = Str [] \<longleftrightarrow> \<lfloor>t\<rfloor> < \<lfloor>d\<rfloor>) \<and>
          (\<lfloor>d\<rfloor> \<le> \<lfloor>t\<rfloor> \<longrightarrow> (\<exists>x. fst (computed_cells rs today row) = Num x)))"
proof (intro conjI impI)
  assume "\<not> is_error (IssueDate row) \<and> \<not> is_error (PurchaseAmount row) \<and> \<not> is_error (FixedRate row) \<and>
      ((IssueDate row = Blank \<or> IssueDate row = Str []) \<or>
       (PurchaseAmount row = Blank \<or> PurchaseAmount row = Str []) \<or>
       (FixedRate row = Blank \<or> FixedRate row = Str []))"
  then show "snd (computed_cells rs today row) = Str []"
    by (simp add: computed_cells_def CurrentValue_blank)
next
  assume a: "IssueDate row = Num d \<and> today = Num t \<and> 0 \<le> d \<and> 0 \<le> t"
  then have m: "fst (computed_cells rs today row) = MonthsHeld (Num t) (Num d)"
    by (simp add: computed_cells_def)
  from a MonthsHeld_number [of d t]
  show "fst (computed_cells rs today row) = Str [] \<longleftrightarrow> \<lfloor>t\<rfloor> < \<lfloor>d\<rfloor>"
    unfolding m by blast
  assume "\<lfloor>d\<rfloor> \<le> \<lfloor>t\<rfloor>"
  with a MonthsHeld_number [of d t]
  show "\<exists>x. fst (computed_cells rs today row) = Num x"
    unfolding m by blast
qed

text \<open>
  An instance: the row of a bond issued 2024-01-15 with no purchase amount, read on
  2024-07-20: CurrentValue is the empty text, MonthsHeld is not.
\<close>

theorem C5_blank_inputs_witness:
  "snd (computed_cells ex_rates (Num 45493) ex_row_no_amount) = Str [] \<and>
   fst (computed_cells ex_rates (Num 45493) ex_row_no_amount) \<noteq> Str []"
  using C5_blank_inputs [where row = ex_row_no_amount and d = 45306 and today = "Num 45493"
      and t = 45493 and rs = ex_rates]
  by (simp add: ex_row_no_amount_def)

text \<open>
  As the claim is written, with MonthsHeld blank whenever one of the three entries is
  blank, it fails: in that row the purchase amount is blank and MonthsHeld is 6.
\<close>

lemma MonthsHeld_ex5: "MonthsHeld (Num 45493) (Num 45306) = Num 6"
  by code_simp

theorem C5_counterexample:
  "PurchaseAmount ex_row_no_amount = Blank \<and>
   fst (computed_cells ex_rates (Num 45493) ex_row_no_amount) = Num 6"
  by (simp add: computed_cells_def ex_row_no_amount_def MonthsHeld_ex5)

section \<open>The rows of the schedule\<close>

lemma Month_closed:
  "Month (Num d) (Num (of_nat n)) = map (\<lambda>i. xEDATE (Num d) (Num (of_nat i))) [0..<n + 1]"
proof -
  have "xadd (Num (of_nat n)) (Num 1) = Num (of_nat (n + 1))"
    by (simp add: xadd_def num2_def)
  then show ?thesis
    using xSEQUENCE_nat [of "n + 1" 0] by (simp add: Month_def xIFa_Bool o_def del: upt_Suc)
qed

text \<open>
  Claim C8: for a resolved bond (the lookup of the issue date in B3 gives a number \<open>d\<close>)
  with \<open>n\<close> months to project in B6, the MonthIndex column has exactly \<open>n + 1\<close> rows
  holding 0 to \<open>n\<close> in ascending order, and the Month column has \<open>n + 1\<close> rows, row \<open>i\<close>
  holding the issue date moved on by \<open>i\<close> months (\<open>EDATE\<close>).
\<close>

theorem C8_schedule_rows:
  assumes "B3 bonds sel = Num d" and "B6 bonds sel = Num (of_nat n)"
  shows "MonthIndex (B3 bonds sel) (B6 bonds sel) = map (\<lambda>i. Num (of_nat i)) [0..<n + 1] \<and>
         length (MonthIndex (B3 bonds sel) (B6 bonds sel)) = n + 1 \<and>
         Month (B3 bonds sel) (B6 bonds sel) = map (\<lambda>i. xEDATE (Num d) (Num (of_nat i))) [0..<n + 1] \<and>
         length (Month (B3 bonds sel) (B6 bonds sel)) = n + 1"
  by (simp add: assms MonthIndex_closed Month_closed del: upt_Suc)

text \<open>
  An instance: the example row of the script selected by its id, 120 months to
  project: 121 rows, the second of them month 1 on 2024-02-15 (serial 45337).
\<close>

lemma lookups_ex8:
  "B3 [example_row] (Str ''EX-0001'') = Num 45306"
  "B6 [example_row] (Str ''EX-0001'') = Num (of_nat 120)"
  by code_simp+

lemma edate_ex8: "xEDATE (Num 45306) (Num 1) = Num 45337"
  by code_simp

theorem C8_schedule_rows_witness:
  "length (MonthIndex (B3 [example_row] (Str ''EX-0001'')) (B6 [example_row] (Str ''EX-0001''))) = 121 \<and>
   MonthIndex (B3 [example_row] (Str ''EX-0001'')) (B6 [example_row] (Str ''EX-0001'')) ! 1 = Num 1 \<and>
   length (Month (B3 [example_row] (Str ''EX-0001'')) (B6 [example_row] (Str ''EX-0001''))) = 121 \<and>
   Month (B3 [example_row] (Str ''EX-0001'')) (B6 [example_row] (Str ''EX-0001'')) ! 1 = Num 45337"
proof -
  note t = C8_schedule_rows [OF lookups_ex8]
  have "map f [0..<120 + 1] ! 1 = f 1" for f :: "nat \<Rightarrow> cell"
    using nth_map_upt [of 1 "120 + 1" 0 f] by simp
  with t show ?thesis
    by (simp add: edate_ex8 del: upt_Suc)
qed

section \<open>An issue date before the rate table\<close>

lemma match_scan_miss:
  "list_all (\<lambda>c. case c of Num e \<Rightarrow> k < e | _ \<Rightarrow> True) col \<Longrightarrow> match_scan k col pos = None"
  by (induction col arbitrary: pos) (auto split: cell.splits)

lemma xMATCH1_miss:
  assumes "issue_before_table d rs"
  shows "xMATCH1 (Num d) (RatesA rs) = Err E_NA"
proof -
  from assms have "list_all (\<lambda>c. case c of Num e \<Rightarrow> d < e | _ \<Rightarrow> True) (RatesA rs)"
    by (simp add: issue_before_table_def RatesA_def)
  then show ?thesis
    by (simp add: xMATCH1.simps match_scan_miss)
qed

lemma CurrentValue_match_error:
  assumes "is_error (xMATCH1 (Num d) (RatesA rs))" and "\<not> is_error D" and "\<not> is_error E"
  shows "CurrentValue rs today (Num d) D E = Str []"
proof -
  from assms(2,3) obtain b where "xOR [xeq (Num d) (Str []), xeq D (Str []), xeq E (Str [])] = Bool b"
    by (simp add: xeq_empty_cases)
  then show ?thesis
    by (simp add: CurrentValue_def xIF_Bool Let_def value_at_match_error [OF assms(1)])
qed

lemma xadd_error_left: "xadd (Err e) b = Err e"
  by (simp add: xadd_def num2_def)

lemma xINDEX_col_error: "xINDEX_col col (Err e) = Err e"
  by (simp add: xINDEX_col_def num1_def)

lemma halfFac_Num_error: "halfFac (Num f) (Err e) = Err e"
  by (simp add: halfFac_def xadd_def xmul_def xdiv_def num2_def)

lemma xINDEX_arr_nat:
  "1 \<le> j \<Longrightarrow> j \<le> length arr \<Longrightarrow> xINDEX_arr arr (Num (of_nat j)) = arr ! (j - 1)"
  by (simp add: xINDEX_arr_def num1_def)

lemma numPeriods_nat:
  "xadd (xINT (xdiv (Num (of_nat n)) (Num 6))) (Num 1) = Num (of_nat (n div 6 + 1))"
  by (simp add: fullPeriods_nat xadd_def num2_def)

lemma halfFacVec_miss:
  assumes "xMATCH1 (Num d) (RatesA rs) = Err e"
  shows "halfFacVec rs (Num d) (Num f) (Num (of_nat n)) = replicate (n div 6 + 1) (Err e)"
proof -
  have "xSEQUENCE (Num (of_nat (n div 6 + 1))) (Num 0) = map (\<lambda>i. Num (of_nat i)) [0..<n div 6 + 1]"
    using xSEQUENCE_nat [of "n div 6 + 1" 0] by simp
  then show ?thesis
    by (simp add: halfFacVec_def Let_def numPeriods_nat assms o_def xadd_error_left
        xINDEX_col_error halfFac_Num_error map_replicate_const del: upt_Suc replicate_Suc)
qed

lemma xSCAN_errors:
  "a = Num x \<or> a = Err e \<Longrightarrow> xSCAN a (replicate j (Err e)) (\<lambda>a x. xmul a x) = replicate j (Err e)"
  by (induction j arbitrary: a x) (auto simp add: xmul_def num2_def)

lemma cumProdVec_miss:
  assumes "xMATCH1 (Num d) (RatesA rs) = Err e"
  shows "cumProdVec rs (Num d) (Num f) (Num (of_nat n)) = replicate (n div 6 + 1) (Err e)"
  by (simp add: cumProdVec_def halfFacVec_miss [OF assms] xSCAN_errors [of _ 1] del: replicate_Suc)

lemma VariableRate_miss:
  assumes "xMATCH1 (Num d) (RatesA rs) = Err e"
  shows "VariableRate rs (Num d) (Num (of_nat n)) = replicate (n + 1) (Err e)"
  by (simp add: VariableRate_def xIFa_Bool Let_def MonthIndex_closed assms o_def xadd_error_left
      xINDEX_col_error map_replicate_const del: upt_Suc replicate_Suc)

lemma CompositeRate_miss:
  assumes "xMATCH1 (Num d) (RatesA rs) = Err e"
  shows "CompositeRate rs (Num d) (Num f) (Num (of_nat n)) = replicate (n + 1) (Err e)"
  by (simp add: CompositeRate_def xIFa_Bool Let_def VariableRate_miss [OF assms] xadd_def xmul_def
      num2_def del: replicate_Suc)

lemma Value_miss:
  assumes "xMATCH1 (Num d) (RatesA rs) = Err e"
  shows "Value rs (Num d) (Num P) (Num f) (Num (of_nat n)) = replicate (n + 1) (Err e)"
proof -
  have row: "xROUND (xmul (xmul (Num P)
                (xINDEX_arr (replicate (n div 6 + 1) (Err e)) (xadd (xINT (xdiv (Num (of_nat i)) (Num 6))) (Num 1))))
                (xPOWER (xINDEX_arr (replicate (n div 6 + 1) (Err e)) (xadd (xINT (xdiv (Num (of_nat i)) (Num 6))) (Num 1)))
                   (xdiv (xMOD (Num (of_nat i)) (Num 6)) (Num 6)))) 2 = Err e"
    if "i \<in> set [0..<n + 1]" for i
  proof -
    from that have "i \<le> n" by auto
    then have "i div 6 \<le> n div 6" by (rule div_le_mono)
    then have "xINDEX_arr (replicate (n div 6 + 1) (Err e)) (Num (of_nat (i div 6 + 1))) = Err e"
      by (simp add: xINDEX_arr_nat del: replicate_Suc of_nat_add of_nat_Suc)
    then show ?thesis
      by (simp add: numPeriods_nat xmul_def num2_def xROUND_def num1_def del: replicate_Suc)
  qed
  have "map (\<lambda>mi. xROUND (xmul (xmul (Num P)
                (xINDEX_arr (replicate (n div 6 + 1) (Err e)) (xadd (xINT (xdiv mi (Num 6))) (Num 1))))
                (xPOWER (xINDEX_arr (replicate (n div 6 + 1) (Err e)) (xadd (xINT (xdiv mi (Num 6))) (Num 1)))
                   (xdiv (xMOD mi (Num 6)) (Num 6)))) 2) (map (\<lambda>i. Num (of_nat i)) [0..<n + 1])
        = map (\<lambda>i. Err e) [0..<n + 1]"
    unfolding map_map o_def by (rule map_cong [OF refl]) (rule row)
  then show ?thesis
    by (simp add: Value_def xIFa_Bool Let_def MonthIndex_closed cumProdVec_miss [OF assms]
        halfFacVec_miss [OF assms] map_replicate_const del: upt_Suc replicate_Suc)
qed


text \<open>
  What a lookup miss gives in each formula: the CurrentValue formula ends in \<open>IFERROR\<close>
  and gives the empty text; the spilled formulas of the schedule pass the \<open>#N/A\<close> of
  \<open>MATCH\<close> on to every row.
\<close>

lemma lookup_miss_columns:
  assumes "issue_before_table d rs" and "\<not> is_error D" and "\<not> is_error E"
  shows "CurrentValue rs today (Num d) D E = Str [] \<and>
         VariableRate rs (Num d) (Num (of_nat n)) = replicate (n + 1) (Err E_NA) \<and>
         CompositeRate rs (Num d) (Num f) (Num (of_nat n)) = replicate (n + 1) (Err E_NA) \<and>
         Value rs (Num d) (Num P) (Num f) (Num (of_nat n)) = replicate (n + 1) (Err E_NA)"
proof -
  note miss = xMATCH1_miss [OF assms(1)]
  then have "is_error (xMATCH1 (Num d) (RatesA rs))" by simp
  then have "CurrentValue rs today (Num d) D E = Str []"
    using assms(2,3) by (rule CurrentValue_match_error)
  with VariableRate_miss [OF miss] CompositeRate_miss [OF miss] Value_miss [OF miss]
  show ?thesis by blast
qed

lemma before_example: "issue_before_table 45306 example_rates"
  by code_simp

lemma lookups_example:
  "B4 [example_row] (Str ''EX-0001'') = Num 1000"
  "B5 [example_row] (Str ''EX-0001'') = Num (9 / 1000)"
  by code_simp+

text \<open>
  Claim C6 says that for a bond issued before every effective date of the rate table
  the rate and the value resolve to blank, in the Inventory and in the schedule. The
  Inventory formula does so. The schedule formulas do not: they have no \<open>IFERROR\<close>, and
  the error of the lookup shows in every row. The workbook as the script writes it is a
  case: its rates start on 2024-05-01 and its example bond EX-0001 is issued on
  2024-01-15. Read on 2024-01-20, the CurrentValue of that row is the empty text; with
  EX-0001 selected on the schedule sheet, all 121 rows of the VariableRate,
  CompositeRate and Value columns show \<open>#N/A\<close>.
\<close>

theorem C6_schedule_shows_lookup_error:
  "issue_before_table 45306 example_rates \<and>
   snd (computed_cells example_rates (Num 45311) example_row) = Str [] \<and>
   VariableRate example_rates (B3 [example_row] (Str ''EX-0001'')) (B6 [example_row] (Str ''EX-0001''))
     = replicate 121 (Err E_NA) \<and>
   CompositeRate example_rates (B3 [example_row] (Str ''EX-0001'')) (B5 [example_row] (Str ''EX-0001''))
     (B6 [example_row] (Str ''EX-0001'')) = replicate 121 (Err E_NA) \<and>
   Value example_rates (B3 [example_row] (Str ''EX-0001'')) (B4 [example_row] (Str ''EX-0001''))
     (B5 [example_row] (Str ''EX-0001'')) (B6 [example_row] (Str ''EX-0001'')) = replicate 121 (Err E_NA)"
proof -
  have n: "\<not> is_error (Num 1000)" "\<not> is_error (Num (9 / 1000))" by simp_all
  have e: "replicate (120 + 1) (Err E_NA) = replicate 121 (Err E_NA)" by simp
  from lookup_miss_columns [OF before_example n, of "Num 45311" 120 "9 / 1000" 1000]
  show ?thesis
    unfolding lookups_ex8 lookups_example e
    by (simp add: before_example computed_cells_def example_row_def)
qed

section \<open>The schedule's Value column in closed form\<close>

text \<open>
  The running products of \<open>SCAN\<close> over numbers: the element at position \<open>i\<close> (from 0) is
  the start value times the first \<open>i + 1\<close> elements.
\<close>

lemma xSCAN_length: "length (xSCAN a xs f) = length xs"
  by (induction xs arbitrary: a) simp_all

lemma xSCAN_nums:
  "i < length xs \<Longrightarrow>
     xSCAN (Num a) (map Num xs) (\<lambda>a x. xmul a x) ! i = Num (a * prod_list (take (Suc i) xs))"
proof (induction xs arbitrary: a i)
  case Nil
  then show ?case by simp
next
  case (Cons x xs)
  show ?case
  proof (cases i)
    case 0
    then show ?thesis by (simp add: xmul_def num2_def)
  next
    case (Suc j)
    with Cons.prems have "j < length xs" by simp
    from Cons.IH [OF this, of "a * x"] Suc show ?thesis
      by (simp add: xmul_def num2_def mult.assoc)
  qed
qed

lemma halfFacVec_closed:
  assumes "xMATCH1 (Num d) (RatesA rs) = Num (of_nat s)"
    and "\<And>i. i \<le> n div 6 \<Longrightarrow> to_num (rate_row rs (s + i)) = Inr (v i)"
  shows "halfFacVec rs (Num d) (Num f) (Num (of_nat n)) =
           map Num (map (\<lambda>i. half_factor f (v i)) [0..<n div 6 + 1])"
proof -
  have seq: "xSEQUENCE (Num (of_nat (n div 6 + 1))) (Num 0) = map (\<lambda>i. Num (of_nat i)) [0..<n div 6 + 1]"
    using xSEQUENCE_nat [of "n div 6 + 1" 0] by simp
  have add: "xadd (Num (of_nat s)) (Num (of_nat i)) = Num (of_nat (s + i))" for i
    by (simp add: xadd_def num2_def)
  have "halfFacVec rs (Num d) (Num f) (Num (of_nat n)) =
          map (\<lambda>i. halfFac (Num f) (rate_row rs (s + i))) [0..<n div 6 + 1]"
    by (simp only: halfFacVec_def Let_def numPeriods_nat seq assms(1) map_map o_def add rate_row_def)
  also have "\<dots> = map (\<lambda>i. Num (half_factor f (v i))) [0..<n div 6 + 1]"
  proof (rule map_cong [OF refl])
    fix i assume "i \<in> set [0..<n div 6 + 1]"
    then have "i \<le> n div 6" by auto
    then show "halfFac (Num f) (rate_row rs (s + i)) = Num (half_factor f (v i))"
      by (intro halfFac_num assms(2))
  qed
  finally show ?thesis by (simp only: map_map o_def)
qed

text \<open>
  For the row of month \<open>m\<close>, in period \<open>k = m div 6\<close>: the Value column multiplies the
  factors of the periods 0 to \<open>k\<close>, the current period included, and the partial factor
  of period \<open>k\<close>. (The Inventory formula, \<open>value_at_closed\<close>, multiplies the factors of
  the periods 0 to \<open>k - 1\<close> and the same partial factor.)
\<close>

lemma Value_closed:
  assumes match: "xMATCH1 (Num d) (RatesA rs) = Num (of_nat s)"
    and rates: "\<And>i. i \<le> n div 6 \<Longrightarrow> to_num (rate_row rs (s + i)) = Inr (v i)"
    and pos: "\<And>i. i \<le> n div 6 \<Longrightarrow> 0 < half_factor f (v i)"
    and m: "m \<le> n"
  shows "Value rs (Num d) (Num P) (Num f) (Num (of_nat n)) ! m =
           Num (round_half_away
             (P * prod_list (map (\<lambda>i. half_factor f (v i)) [0..<m div 6 + 1])
                * half_factor f (v (m div 6)) powr (real (m mod 6) / 6)) 2)"
proof -
  define gs where "gs = map (\<lambda>i. half_factor f (v i)) [0..<n div 6 + 1]"
  have hf: "halfFacVec rs (Num d) (Num f) (Num (of_nat n)) = map Num gs"
    unfolding gs_def by (rule halfFacVec_closed [OF match rates])
  have k: "m div 6 \<le> n div 6" using m by (rule div_le_mono)
  then have len: "m div 6 < length gs" by (simp add: gs_def)
  have gk: "gs ! (m div 6) = half_factor f (v (m div 6))"
    using k unfolding gs_def by (simp add: nth_map_upt del: upt_Suc)
  have tk: "take (Suc (m div 6)) gs = map (\<lambda>i. half_factor f (v i)) [0..<m div 6 + 1]"
    using k unfolding gs_def by (simp add: take_map take_upt del: upt_Suc)
  have idx: "xadd (xINT (xdiv (Num (of_nat m)) (Num 6))) (Num 1) = Num (of_nat (m div 6 + 1))"
    by (rule numPeriods_nat)
  have fp: "xINDEX_arr (cumProdVec rs (Num d) (Num f) (Num (of_nat n))) (Num (of_nat (m div 6 + 1))) =
          Num (prod_list (map (\<lambda>i. half_factor f (v i)) [0..<m div 6 + 1]))"
    using len xSCAN_nums [OF len, of 1] 
    by (simp add: cumProdVec_def hf xINDEX_arr_nat xSCAN_length tk del: upt_Suc of_nat_add of_nat_Suc)
  have hx: "xINDEX_arr (halfFacVec rs (Num d) (Num f) (Num (of_nat n))) (Num (of_nat (m div 6 + 1))) =
          Num (half_factor f (v (m div 6)))"
    using len by (simp add: hf xINDEX_arr_nat gk del: upt_Suc of_nat_add of_nat_Suc)
  have row: "Value rs (Num d) (Num P) (Num f) (Num (of_nat n)) ! m =
      xROUND (xmul (xmul (Num P)
          (xINDEX_arr (cumProdVec rs (Num d) (Num f) (Num (of_nat n))) (xadd (xINT (xdiv (Num (of_nat m)) (Num 6))) (Num 1))))
          (xPOWER (xINDEX_arr (halfFacVec rs (Num d) (Num f) (Num (of_nat n))) (xadd (xINT (xdiv (Num (of_nat m)) (Num 6))) (Num 1)))
             (xdiv (xMOD (Num (of_nat m)) (Num 6)) (Num 6)))) 2"
    using m by (simp add: Value_def xIFa_Bool Let_def MonthIndex_closed nth_map_upt del: upt_Suc)
  show ?thesis
    unfolding row idx fp hx monthsInPeriod_nat
    using pos [OF k]
    by (simp add: xdiv_def xPOWER_def xmul_def xROUND_def num1_def num2_def del: upt_Suc)
qed

section \<open>Growth from month to month\<close>

lemma round_half_away_mono:
  assumes "0 \<le> x" and "x \<le> y"
  shows "round_half_away x d \<le> round_half_away y d"
proof (cases "x = 0")
  case True
  with assms have "0 \<le> round_half_away y d"
    by (simp add: round_half_away_def sgn_if)
  with True show ?thesis by (simp add: round_half_away_def)
next
  case False
  with assms have pos: "0 < x" "0 < y" by simp_all
  from assms have "\<bar>x\<bar> * 10 ^ d + 1 / 2 \<le> \<bar>y\<bar> * 10 ^ d + 1 / 2"
    by (simp add: mult_right_mono)
  then have "\<lfloor>\<bar>x\<bar> * 10 ^ d + 1 / 2\<rfloor> \<le> \<lfloor>\<bar>y\<bar> * 10 ^ d + 1 / 2\<rfloor>"
    by (rule floor_mono)
  then have "real_of_int \<lfloor>\<bar>x\<bar> * 10 ^ d + 1 / 2\<rfloor> / 10 ^ d \<le> real_of_int \<lfloor>\<bar>y\<bar> * 10 ^ d + 1 / 2\<rfloor> / 10 ^ d"
    by (simp add: divide_right_mono)
  with pos show ?thesis
    by (simp add: round_half_away_def)
qed

lemma prod_list_ge_one:
  "(\<And>x. x \<in> set xs \<Longrightarrow> 1 \<le> g x) \<Longrightarrow> 1 \<le> prod_list (map g xs)" for g :: "'a \<Rightarrow> real"
proof (induction xs)
  case Nil
  then show ?case by simp
next
  case (Cons a xs)
  then have "1 \<le> g a" "1 \<le> prod_list (map g xs)" by simp_all
  then have "1 * 1 \<le> g a * prod_list (map g xs)" by (intro mult_mono) simp_all
  then show ?case by simp
qed

text \<open>
  The growth over \<open>m\<close> months for the period factors \<open>g\<close>: the factors of the full
  periods times the factor of the current period to the power of its elapsed part.
\<close>

lemma growth_step:
  fixes g :: "nat \<Rightarrow> real"
  assumes "\<And>i. i \<le> Suc m div 6 \<Longrightarrow> 1 \<le> g i"
  shows "prod_list (map g [0..<m div 6]) * g (m div 6) powr (real (m mod 6) / 6)
       \<le> prod_list (map g [0..<Suc m div 6]) * g (Suc m div 6) powr (real (Suc m mod 6) / 6)"
proof -
  have k: "m div 6 \<le> Suc m div 6" by (rule div_le_mono) simp
  have p: "1 \<le> prod_list (map g [0..<m div 6])"
    by (rule prod_list_ge_one) (use k assms in auto)
  have gk: "1 \<le> g (m div 6)" using assms k by simp
  show ?thesis
  proof (cases "m mod 6 = 5")
    case True
    then have d: "Suc m div 6 = Suc (m div 6)" and r: "Suc m mod 6 = 0"
      by (simp_all add: div_Suc mod_Suc)
    have "1 \<le> g (Suc (m div 6))" using assms d by simp
    then have one: "g (Suc (m div 6)) \<noteq> 0" by simp
    have "g (m div 6) powr (real (m mod 6) / 6) \<le> g (m div 6) powr 1"
      using gk by (intro powr_mono) (simp_all add: True)
    also have "\<dots> = g (m div 6)" using gk by simp
    finally have "prod_list (map g [0..<m div 6]) * g (m div 6) powr (real (m mod 6) / 6)
        \<le> prod_list (map g [0..<m div 6]) * g (m div 6)"
      using p by (intro mult_left_mono) simp_all
    then show ?thesis by (simp add: d r one)
  next
    case False
    then have d: "Suc m div 6 = m div 6" and r: "Suc m mod 6 = Suc (m mod 6)"
      by (simp_all add: div_Suc mod_Suc)
    have "g (m div 6) powr (real (m mod 6) / 6) \<le> g (m div 6) powr (real (Suc (m mod 6)) / 6)"
      using gk by (intro powr_mono) simp_all
    then have "prod_list (map g [0..<m div 6]) * g (m div 6) powr (real (m mod 6) / 6)
        \<le> prod_list (map g [0..<m div 6]) * g (m div 6) powr (real (Suc (m mod 6)) / 6)"
      using p by (intro mult_left_mono) simp_all
    then show ?thesis by (simp only: d r)
  qed
qed

lemma growth_mono:
  fixes g :: "nat \<Rightarrow> real"
  assumes "m1 \<le> m2" and "\<And>i. i \<le> m2 div 6 \<Longrightarrow> 1 \<le> g i"
  shows "prod_list (map g [0..<m1 div 6]) * g (m1 div 6) powr (real (m1 mod 6) / 6)
       \<le> prod_list (map g [0..<m2 div 6]) * g (m2 div 6) powr (real (m2 mod 6) / 6)"
  using assms
proof (induction m2 rule: dec_induct)
  case base
  then show ?case by simp
next
  case (step n)
  have n: "i \<le> Suc n div 6 \<Longrightarrow> 1 \<le> g i" for i by (rule step.prems)
  have "n div 6 \<le> Suc n div 6" by (rule div_le_mono) simp
  with n have "i \<le> n div 6 \<Longrightarrow> 1 \<le> g i" for i by simp
  with step.IH have "prod_list (map g [0..<m1 div 6]) * g (m1 div 6) powr (real (m1 mod 6) / 6)
       \<le> prod_list (map g [0..<n div 6]) * g (n div 6) powr (real (n mod 6) / 6)"
    by simp
  also have "\<dots> \<le> prod_list (map g [0..<Suc n div 6]) * g (Suc n div 6) powr (real (Suc n mod 6) / 6)"
    by (rule growth_step) (rule n)
  finally show ?case .
qed


text \<open>
  For a bond with a purchase amount that is not negative, whose looked-up variable
  rates are numbers and give a composite rate \<open>f + v + f * v\<close> that is not negative in
  every period up to the later reading, the Inventory CurrentValue read after \<open>m1\<close>
  months is at most the one read after \<open>m2\<close> months, for \<open>m1 \<le> m2\<close>.
\<close>

lemma inventory_value_monotone:
  assumes "months today1 (Num d) = Num (of_nat m1)"
    and "months today2 (Num d) = Num (of_nat m2)"
    and "m1 \<le> m2"
    and "xMATCH1 (Num d) (RatesA rs) = Num (of_nat s)"
    and "\<forall>i \<le> m2 div 6. to_num (rate_row rs (s + i)) = Inr (v i)"
    and "\<forall>i \<le> m2 div 6. 0 \<le> f + v i + f * v i"
    and "0 \<le> P"
  shows "\<exists>x y. CurrentValue rs today1 (Num d) (Num P) (Num f) = Num x \<and>
               CurrentValue rs today2 (Num d) (Num P) (Num f) = Num y \<and> x \<le> y"
proof -
  define g where "g i = half_factor f (v i)" for i
  define A where "A m = prod_list (map g [0..<m div 6]) * g (m div 6) powr (real (m mod 6) / 6)" for m
  have g1: "1 \<le> g i" if "i \<le> m2 div 6" for i
    using assms(6) that by (simp add: g_def half_factor_def)
  have k: "m1 div 6 \<le> m2 div 6" using assms(3) by (rule div_le_mono)
  have v1: "value_at rs (Num d) (Num P) (Num f) (Num (of_nat m1)) = Num (round_half_away (P * A m1) 2)"
    unfolding A_def g_def mult.assoc [symmetric]
    by (rule value_at_closed [OF assms(4)]) (use assms(5) g1 k in \<open>auto simp add: g_def intro: less_le_trans [OF zero_less_one]\<close>)
  have v2: "value_at rs (Num d) (Num P) (Num f) (Num (of_nat m2)) = Num (round_half_away (P * A m2) 2)"
    unfolding A_def g_def mult.assoc [symmetric]
    by (rule value_at_closed [OF assms(4)]) (use assms(5) g1 in \<open>auto simp add: g_def intro: less_le_trans [OF zero_less_one]\<close>)
  have "A m1 \<le> A m2"
    unfolding A_def by (rule growth_mono [OF assms(3)]) (rule g1)
  moreover have "0 \<le> A m1"
  proof -
    have "1 \<le> prod_list (map g [0..<m1 div 6])"
      by (rule prod_list_ge_one) (use g1 k in auto)
    then show ?thesis by (simp add: A_def)
  qed
  ultimately have "0 \<le> P * A m1" "P * A m1 \<le> P * A m2"
    using assms(7) by (simp_all add: mult_left_mono)
  then have "round_half_away (P * A m1) 2 \<le> round_half_away (P * A m2) 2"
    by (rule round_half_away_mono)
  then show ?thesis
    by (simp add: CurrentValue_numbers assms(1,2) v1 v2)
qed

text \<open>
  The rows of the rate table of the examples (4% from 2023-11-01, 2% from 2024-05-01)
  for the bond issued 2024-01-15.
\<close>

lemma months_ex7: "months (Num 45311) (Num 45306) = Num (of_nat 0)"
  "months (Num 45493) (Num 45306) = Num (of_nat 6)"
  by code_simp+

lemma rows_ex7:
  "to_num (rate_row ex_rates (2 + 0)) = Inr (4 / 100)"
  "to_num (rate_row ex_rates (2 + 1)) = Inr (2 / 100)"
  by code_simp+

lemma rates_ex7:
  "\<forall>i \<le> 6 div 6. to_num (rate_row ex_rates (2 + i)) = Inr (if i = 0 then 4 / 100 else 2 / 100)"
proof (intro allI impI)
  fix i :: nat
  assume "i \<le> 6 div 6"
  then have "i = 0 \<or> i = 1" by auto
  then show "to_num (rate_row ex_rates (2 + i)) = Inr (if i = 0 then 4 / 100 else 2 / 100)"
  proof
    assume "i = 0"
    with rows_ex7(1) show ?thesis by simp
  next
    assume "i = 1"
    with rows_ex7(2) show ?thesis by simp
  qed
qed

text \<open>
  The value of \<open>1020 * 1.02 ^ (5/6)\<close> to the cent, from bounds on the sixth root.
\<close>

lemma sixth_root_of_power:
  fixes a :: real
  assumes "0 < a"
  shows "(a ^ 6) powr (1 / 6) = a"
proof -
  have "(a ^ 6) powr (1 / 6) = (a powr 6) powr (1 / 6)"
    using assms by simp
  also have "\<dots> = a powr (6 * (1 / 6))"
    by (rule powr_powr)
  also have "\<dots> = a"
    using assms by simp
  finally show ?thesis .
qed

lemma fifth_power_sixth_root:
  fixes g :: real
  assumes "0 < g"
  shows "(g ^ 5) powr (1 / 6) = g powr (5 / 6)"
proof -
  have "(g ^ 5) powr (1 / 6) = (g powr 5) powr (1 / 6)"
    using assms by simp
  also have "\<dots> = g powr (5 * (1 / 6))"
    by (rule powr_powr)
  finally show ?thesis by simp
qed

lemma sixth_root_lower:
  fixes a g :: real
  assumes "0 < a" and "0 < g" and "a ^ 6 \<le> g ^ 5"
  shows "a \<le> g powr (5 / 6)"
proof -
  have "(a ^ 6) powr (1 / 6) \<le> (g ^ 5) powr (1 / 6)"
    using assms by (intro powr_mono2) simp_all
  then show ?thesis
    by (simp only: sixth_root_of_power [OF assms(1)] fifth_power_sixth_root [OF assms(2)])
qed

lemma sixth_root_upper:
  fixes b g :: real
  assumes "0 < b" and "0 < g" and "g ^ 5 < b ^ 6"
  shows "g powr (5 / 6) < b"
proof -
  have "(g ^ 5) powr (1 / 6) < (b ^ 6) powr (1 / 6)"
    using assms by (intro powr_less_mono2) simp_all
  then show ?thesis
    by (simp only: sixth_root_of_power [OF assms(1)] fifth_power_sixth_root [OF assms(2)])
qed

lemma round_month5: "round_half_away (1020 * (51 / 50) powr (5 / 6)) 2 = 103697 / 100"
proof -
  define x :: real where "x = (51 / 50) powr (5 / 6)"
  have lo: "1016633 / 1000000 \<le> x"
    unfolding x_def by (rule sixth_root_lower) (simp_all add: power_divide)
  have hi: "x < 1016642 / 1000000"
    unfolding x_def by (rule sixth_root_upper) (simp_all add: power_divide)
  have pos: "0 < 1020 * x" using lo by simp
  have "\<lfloor>\<bar>1020 * x\<bar> * 10 ^ 2 + 1 / 2\<rfloor> = 103697"
  proof (rule floor_unique)
    show "of_int 103697 \<le> \<bar>1020 * x\<bar> * 10 ^ 2 + 1 / 2" using lo by simp
    show "\<bar>1020 * x\<bar> * 10 ^ 2 + 1 / 2 < of_int 103697 + 1" using lo hi by simp
  qed
  then show ?thesis
    using pos unfolding round_half_away_def x_def [symmetric] by (simp add: sgn_if)
qed

lemma round_month6: "round_half_away (10302 / 10) 2 = 10302 / 10"
  using round_cents [of 103020] by simp

text \<open>
  Claim C7 says that the value is non-decreasing in the month offset when every
  composite rate is at least 0, in the Inventory formula and in the Value column of the
  schedule. The Inventory formula is (\<open>inventory_value_monotone\<close>, for an amount that
  is not negative). The Value column is not: its product runs one period ahead, so at
  the start of a period the factor of the period before gives way to the factor of the
  new one. For the bond issued 2024-01-15 with amount 1000 and fixed rate 0, under 4%
  followed by 2%, the schedule row of month 5 shows 1036.97 and the row of month 6 shows
  1030.20.
\<close>

theorem C7_schedule_value_drops:
  "Value ex_rates (Num 45306) (Num 1000) (Num 0) (Num 6) ! 5 = Num (103697 / 100) \<and>
   Value ex_rates (Num 45306) (Num 1000) (Num 0) (Num 6) ! 6 = Num (10302 / 10)"
proof -
  define w :: "nat \<Rightarrow> real" where "w i = (if i = 0 then 4 / 100 else 2 / 100)" for i
  have rates: "to_num (rate_row ex_rates (2 + i)) = Inr (w i)" if "i \<le> 6 div 6" for i
    using rates_ex7 that by (simp add: w_def)
  have pos: "0 < half_factor 0 (w i)" for i
    by (simp add: half_factor_def w_def)
  have g: "half_factor 0 (w 0) = 51 / 50" "half_factor 0 (w 1) = 101 / 100"
    by (simp_all add: half_factor_def w_def)
  have "Value ex_rates (Num 45306) (Num 1000) (Num 0) (Num (of_nat 6)) ! 5 =
          Num (round_half_away
             (1000 * prod_list (map (\<lambda>i. half_factor 0 (w i)) [0..<5 div 6 + 1])
                * half_factor 0 (w (5 div 6)) powr (real (5 mod 6) / 6)) 2)"
    by (rule Value_closed [OF match_ex1 rates pos]) simp_all
  then have r5: "Value ex_rates (Num 45306) (Num 1000) (Num 0) (Num 6) ! 5 = Num (103697 / 100)"
    by (simp add: g round_month5)
  have "Value ex_rates (Num 45306) (Num 1000) (Num 0) (Num (of_nat 6)) ! 6 =
          Num (round_half_away
             (1000 * prod_list (map (\<lambda>i. half_factor 0 (w i)) [0..<6 div 6 + 1])
                * half_factor 0 (w (6 div 6)) powr (real (6 mod 6) / 6)) 2)"
    by (rule Value_closed [OF match_ex1 rates pos]) simp_all
  moreover have "1000 * prod_list (map (\<lambda>i. half_factor 0 (w i)) [0..<6 div 6 + 1])
                * half_factor 0 (w (6 div 6)) powr (real (6 mod 6) / 6) = 10302 / 10"
    by (simp add: half_factor_def w_def)
  ultimately have r6: "Value ex_rates (Num 45306) (Num 1000) (Num 0) (Num 6) ! 6 = Num (10302 / 10)"
    by (simp only: round_month6 of_nat_numeral)
  from r5 r6 show ?thesis by blast
qed

section \<open>A bond id that is not in the Inventory\<close>

lemma lookup_first_miss:
  "\<forall>k \<in> set ks. \<not> same_key key k \<Longrightarrow> lookup_first key ks vs = Err E_NA"
  by (induction key ks vs rule: lookup_first.induct) simp_all

lemma xXLOOKUP_miss:
  "\<forall>k \<in> set ks. \<not> same_key key k \<Longrightarrow> is_error (xXLOOKUP key ks vs)"
  by (cases key) (simp_all add: lookup_first_miss)

lemma columns_unresolved:
  "Month (Str []) b6 = [Str []]" "MonthIndex (Str []) b6 = [Str []]"
  "VariableRate rs (Str []) b6 = [Str []]" "CompositeRate rs (Str []) b5 b6 = [Str []]"
  "Value rs (Str []) b4 b5 b6 = [Str []]"
  by (simp_all add: Month_def MonthIndex_def VariableRate_def CompositeRate_def Value_def xIFa_Bool)

text \<open>
  Claim C9: when the selected bond id matches no cell of the BondID column, the resolved
  cells B3, B4 and B5 hold the empty text and B6 holds 0, and each of the five schedule
  columns consists of the single empty text: no schedule row is produced.
\<close>

theorem C9_unknown_bond:
  assumes "\<forall>k \<in> set (inv_range BondID bonds). \<not> same_key sel k"
  shows "B3 bonds sel = Str [] \<and> B4 bonds sel = Str [] \<and> B5 bonds sel = Str [] \<and>
         B6 bonds sel = Num 0 \<and>
         Month (B3 bonds sel) (B6 bonds sel) = [Str []] \<and>
         MonthIndex (B3 bonds sel) (B6 bonds sel) = [Str []] \<and>
         VariableRate rs (B3 bonds sel) (B6 bonds sel) = [Str []] \<and>
         CompositeRate rs (B3 bonds sel) (B5 bonds sel) (B6 bonds sel) = [Str []] \<and>
         Value rs (B3 bonds sel) (B4 bonds sel) (B5 bonds sel) (B6 bonds sel) = [Str []]"
proof -
  have "is_error (xXLOOKUP sel (inv_range BondID bonds) vs)" for vs
    using assms by (rule xXLOOKUP_miss)
  then have "B3 bonds sel = Str []" "B4 bonds sel = Str []" "B5 bonds sel = Str []"
    "B6 bonds sel = Num 0"
    by (simp_all add: B3_def B4_def B5_def B6_def xIFERROR_error)
  then show ?thesis
    by (simp add: columns_unresolved)
qed

text \<open>
  An instance: the id EX-9999 against the Inventory that holds the example row only.
\<close>

lemma no_match_ex9: "\<forall>k \<in> set (inv_range BondID [example_row]). \<not> same_key (Str ''EX-9999'') k"
  by code_simp

theorem C9_unknown_bond_witness:
  "B3 [example_row] (Str ''EX-9999'') = Str [] \<and>
   B6 [example_row] (Str ''EX-9999'') = Num 0 \<and>
   MonthIndex (B3 [example_row] (Str ''EX-9999'')) (B6 [example_row] (Str ''EX-9999'')) = [Str []] \<and>
   Value ex_rates (B3 [example_row] (Str ''EX-9999'')) (B4 [example_row] (Str ''EX-9999''))
     (B5 [example_row] (Str ''EX-9999'')) (B6 [example_row] (Str ''EX-9999'')) = [Str []]"
  using C9_unknown_bond [OF no_match_ex9, of ex_rates] by blast

section \<open>The product of the full periods through logarithms\<close>

lemma CurrentValue_fullProd_error:
  assumes "is_error (fullProd rs (Num d) E (months today (Num d)))"
    and "\<not> is_error D" and "\<not> is_error E"
  shows "CurrentValue rs today (Num d) D E = Str []"
proof -
  from assms(2,3) obtain b where "xOR [xeq (Num d) (Str []), xeq D (Str []), xeq E (Str [])] = Bool b"
    by (simp add: xeq_empty_cases)
  then show ?thesis
    by (simp add: CurrentValue_def xIF_Bool Let_def value_at_fullProd_error [OF assms(1)])
qed

text \<open>
  Claim C10: the formula computes the product of the full periods as
  \<open>EXP(SUM(LN(1 + composite/2)))\<close>. With numeric looked-up rates, this is the product of
  the growth factors if and only if every factor is positive; and when the factor of
  some full period is zero or negative, the logarithm faults and CurrentValue is the
  empty text (the purchase amount holding no error code), although the product of the
  factors is a number.
\<close>

theorem C10_product_by_logarithms:
  assumes "months today (Num d) = Num (of_nat m)"
    and "xMATCH1 (Num d) (RatesA rs) = Num (of_nat s)"
    and "\<forall>i < m div 6. to_num (rate_row rs (s + i)) = Inr (v i)"
    and "\<not> is_error D"
  shows "(fullProd rs (Num d) (Num f) (Num (of_nat m)) =
            Num (prod_list (map (\<lambda>i. half_factor f (v i)) [0..<m div 6]))
          \<longleftrightarrow> (\<forall>i < m div 6. 0 < half_factor f (v i))) \<and>
         ((\<exists>i < m div 6. half_factor f (v i) \<le> 0) \<longrightarrow>
            CurrentValue rs today (Num d) D (Num f) = Str [])"
proof (intro conjI impI iffI)
  assume "\<forall>i < m div 6. 0 < half_factor f (v i)"
  then show "fullProd rs (Num d) (Num f) (Num (of_nat m)) =
      Num (prod_list (map (\<lambda>i. half_factor f (v i)) [0..<m div 6]))"
    using assms(3) by (intro fullProd_closed [OF assms(2)]) simp_all
next
  assume eq: "fullProd rs (Num d) (Num f) (Num (of_nat m)) =
      Num (prod_list (map (\<lambda>i. half_factor f (v i)) [0..<m div 6]))"
  show "\<forall>i < m div 6. 0 < half_factor f (v i)"
  proof (rule ccontr)
    assume "\<not> (\<forall>i < m div 6. 0 < half_factor f (v i))"
    then obtain j where j: "j < m div 6" "half_factor f (v j) \<le> 0" by (auto simp add: not_less)
    from assms(3) have "\<And>i. i < m div 6 \<Longrightarrow> to_num (rate_row rs (s + i)) = Inr (v i)" by simp
    from fullProd_fault [OF assms(2) this j] eq show False by simp
  qed
next
  assume "\<exists>i < m div 6. half_factor f (v i) \<le> 0"
  then obtain j where j: "j < m div 6" "half_factor f (v j) \<le> 0" by auto
  from assms(3) have "\<And>i. i < m div 6 \<Longrightarrow> to_num (rate_row rs (s + i)) = Inr (v i)" by simp
  from fullProd_fault [OF assms(2) this j]
  have "is_error (fullProd rs (Num d) (Num f) (months today (Num d)))"
    by (auto simp add: assms(1))
  then show "CurrentValue rs today (Num d) D (Num f) = Str []"
    using assms(4) by (intro CurrentValue_fullProd_error) simp_all
qed

text \<open>
  Instances: after six months under 4% the product is the one factor 51/50; after
  twelve months under -300% both factors are \<open>-1/2\<close>, their product is 1/4, and
  CurrentValue is the empty text.
\<close>

lemma rates_ex10:
  "\<forall>i < 6 div 6. to_num (rate_row ex_rates_flat (2 + i)) = Inr (4 / 100)"
  "\<forall>i < 12 div 6. to_num (rate_row ex_rates_neg (2 + i)) = Inr (- 3)"
proof -
  show "\<forall>i < 6 div 6. to_num (rate_row ex_rates_flat (2 + i)) = Inr (4 / 100)"
    using rows_ex4(1) by simp
  show "\<forall>i < 12 div 6. to_num (rate_row ex_rates_neg (2 + i)) = Inr (- 3)"
  proof (intro allI impI)
    fix i :: nat
    assume "i < 12 div 6"
    then have "i = 0 \<or> i = 1" by auto
    then show "to_num (rate_row ex_rates_neg (2 + i)) = Inr (- 3)"
    proof
      assume "i = 0"
      with rows_ex4n(1) show ?thesis by simp
    next
      assume "i = 1"
      with rows_ex4n(2) show ?thesis by simp
    qed
  qed
qed

theorem C10_product_by_logarithms_witness:
  "fullProd ex_rates_flat (Num 45306) (Num 0) (Num 6) = Num (51 / 50) \<and>
   prod_list (map (\<lambda>i. half_factor 0 (- 3)) [0..<12 div 6]) = 1 / 4 \<and>
   CurrentValue ex_rates_neg (Num 45677) (Num 45306) (Num 1000) (Num 0) = Str []"
proof -
  have n: "\<not> is_error (Num 1000)" by simp
  from C10_product_by_logarithms [OF months_ex7(2) match_ex4 rates_ex10(1) n, of 0]
  have a: "fullProd ex_rates_flat (Num 45306) (Num 0) (Num 6) = Num (51 / 50)"
    by (simp add: half_factor_def)
  from C10_product_by_logarithms [OF months_ex4n match_ex4n rates_ex10(2) n, of 0]
  have "(\<exists>i < (12::nat) div 6. half_factor 0 (- 3) \<le> 0) \<longrightarrow>
      CurrentValue ex_rates_neg (Num 45677) (Num 45306) (Num 1000) (Num 0) = Str []"
    by blast
  moreover have "\<exists>i < (12::nat) div 6. half_factor 0 (- 3) \<le> 0"
    by (rule exI [of _ 0]) (simp add: half_factor_def)
  ultimately have b: "CurrentValue ex_rates_neg (Num 45677) (Num 45306) (Num 1000) (Num 0) = Str []"
    by blast
  have c: "prod_list (map (\<lambda>i. half_factor 0 (- 3)) [0..<12 div 6]) = 1 / 4"
    by (simp add: half_factor_def prod_list_const power2_eq_square)
  from a b c show ?thesis by blast
qed

end
